theory Spec2Isabelle
  imports Main "HOL-Library.List_Lexorder" "HOL-Library.Sublist"
begin

section \<open>Data model\<close>

text \<open>
  A Python \<open>str\<close> is a sequence of Unicode code points: \<open>len\<close> counts code points and
  \<open>sorted\<close> compares code point by code point, a proper prefix first. Both are what
  \<open>length\<close> and the lexicographic order of \<open>HOL-Library.List_Lexorder\<close> give on
  lists of naturals.
\<close>

type_synonym pystr = "nat list"

text \<open>
  \<open>models/entities.py\<close>, class \<open>Person\<close>. The same record is the candidate handed to
  \<open>merge_person\<close> and the property map of a stored \<open>Person\<close> node: a node is only ever
  written from \<open>Person.neo4j_properties()\<close>. The three optional properties are absent
  (\<open>None\<close>) on a node exactly when they were never written.
\<close>

record Person =
  uid :: pystr
  original_name :: pystr
  aliases :: "pystr list"
  role :: pystr
  loyalty :: "pystr list"
  birth_year :: "int option"
  death_year :: "int option"
  death_cause :: "pystr option"
  description :: pystr

text \<open>
  Dynasty and Place nodes: the operations modelled here read and match only \<open>uid\<close> and
  \<open>name\<close>; the descriptive properties are carried as one opaque payload.
\<close>

record Dynasty =
  dynasty_uid :: pystr
  dynasty_name :: pystr
  dynasty_description :: pystr

record Place =
  place_uid :: pystr
  place_name :: pystr
  place_description :: pystr

record Event =
  event_uid :: pystr
  event_name :: pystr
  event_year :: "int option"
  participants :: "pystr list"
  event_description :: pystr

record Relation =
  source :: pystr
  target :: pystr
  relation_type :: pystr
  relation_year :: "int option"
  relation_description :: pystr

text \<open>
  The graph store. \<open>schema.py\<close> puts a uniqueness constraint on \<open>uid\<close> per label, so a
  node is identified by its label and uid, and an edge by the references of its two ends and
  its type. Each label's nodes are kept in the order in which the store scans them: a Cypher
  query with \<open>LIMIT 1\<close> answers with the first node of that order that satisfies its
  \<open>WHERE\<close> clause.
\<close>

datatype label = PersonL | DynastyL | EventL | PlaceL

type_synonym node_ref = "label \<times> pystr"

record edge =
  edge_src :: node_ref
  edge_type :: pystr
  edge_dst :: node_ref
  edge_description :: "pystr option"
  edge_year :: "int option"
  edge_role :: "pystr option"

record graph =
  persons :: "Person list"
  dynasties :: "Dynasty list"
  events :: "Event list"
  places :: "Place list"
  edges :: "edge list"

section \<open>Identity resolution (\<open>graph/crud.py\<close>)\<close>

text \<open>\<open>AMBIGUOUS_TITLES\<close>, the literal of \<open>crud.py\<close>, each title as its code points.\<close>

definition AMBIGUOUS_TITLES :: "pystr set" where
  "AMBIGUOUS_TITLES = set [
   [22826, 23447], [22826, 31062], [19990, 23447], [39640, 31062], [20013, 23447],
   [26126, 23447], [31302, 23447], [24196, 23447], [25991, 23447], [27494, 23447],
   [23459, 23447], [21696, 24093], [24223, 24093], [23569, 24093], [26411, 24093],
   [30343, 24093], [22825, 23376], [26032, 22825, 23376], [22823, 23435, 22825, 23376],
   [22823, 21608, 30343, 24093], [30343, 22826, 23376], [22826, 23376], [30343, 22826, 24351],
   [26187, 29579], [31206, 29579], [40784, 29579], [36213, 29579], [39759, 29579],
   [26970, 29579], [21556, 29579], [34560, 29579], [26753, 29579], [29141, 29579],
   [27721, 29579], [21608, 29579], [23435, 29579], [40065, 29579], [30343, 21518],
   [22826, 21518], [22826, 22915], [36149, 22915], [28113, 22915], [36132, 22915],
   [22826, 23376], [19990, 23376], [38271, 23376], [27425, 23376], [19977, 23376],
   [32769, 22823], [32769, 20108], [32769, 19977], [32769, 22235], [20808, 29579],
   [20808, 24093], [23472, 30456], [26530, 23494, 20351], [33410, 24230, 20351],
   [21050, 21490], [20365, 20013], [21776, 20027], [26753, 20027], [26187, 20027],
   [27721, 20027], [21608, 20027], [34560, 20027], [22865, 20025, 20027], [36797, 20027],
   [21556, 20027], [20278, 20154], [20248, 20278], [20278, 20262],
   [20303, 25345, 21644, 23578], [27861, 24072]]"

text \<open>\<open>Person.all_names\<close>: the name and the aliases, the empty string discarded.\<close>

definition all_names :: "Person \<Rightarrow> pystr set" where
  "all_names person = (insert (original_name person) (set (aliases person))) - {[]}"

text \<open>\<open>GraphCRUD._filter_ambiguous_names\<close>.\<close>

definition filter_ambiguous_names :: "pystr set \<Rightarrow> pystr set" where
  "filter_ambiguous_names names =
     Set.filter (\<lambda>n. n \<noteq> [] \<and> n \<notin> AMBIGUOUS_TITLES \<and> length n \<noteq> 1) names"

text \<open>
  \<open>GraphCRUD.find_person_by_any_name\<close>: the exact query on \<open>original_name\<close> first, the
  alias query only when the first has no row.
\<close>

definition find_person_by_any_name :: "graph \<Rightarrow> pystr set \<Rightarrow> bool \<Rightarrow> Person option" where
  "find_person_by_any_name g names use_filter =
     (if names = {} then None
      else let specific_names =
                 (if use_filter then filter_ambiguous_names names
                  else Set.filter (\<lambda>n. n \<noteq> []) names)
           in if specific_names = {} then None
              else (case List.find (\<lambda>p. original_name p \<in> specific_names) (persons g) of
                      Some r \<Rightarrow> Some r
                    | None \<Rightarrow>
                        List.find (\<lambda>p. \<exists>alias \<in> set (aliases p). alias \<in> specific_names)
                          (persons g)))"

text \<open>
  \<open>MERGE (p:Person {uid: $uid}) SET p += $props\<close> with the properties of
  \<open>Person.neo4j_properties()\<close>: a node of that uid takes the candidate's properties, the
  optional ones only where the candidate has them; without such a node one is created.
  This is the whole of \<open>upsert_person\<close> and the creating branch of \<open>merge_person\<close>.
\<close>

definition set_props :: "Person \<Rightarrow> Person \<Rightarrow> Person" where
  "set_props person n =
     n\<lparr>original_name := original_name person,
       aliases := aliases person,
       role := role person,
       loyalty := loyalty person,
       description := description person,
       birth_year := (case birth_year person of None \<Rightarrow> birth_year n | Some y \<Rightarrow> Some y),
       death_year := (case death_year person of None \<Rightarrow> death_year n | Some y \<Rightarrow> Some y),
       death_cause := (case death_cause person of None \<Rightarrow> death_cause n | Some c \<Rightarrow> Some c)\<rparr>"

definition upsert_person :: "graph \<Rightarrow> Person \<Rightarrow> graph" where
  "upsert_person g person =
     (if \<exists>n \<in> set (persons g). uid n = uid person
      then g\<lparr>persons := map (\<lambda>n. if uid n = uid person then set_props person n else n) (persons g)\<rparr>
      else g\<lparr>persons := persons g @ [person]\<rparr>)"

text \<open>\<open>list(dict.fromkeys(xs))\<close>: duplicates dropped, the first occurrence kept.\<close>

fun dict_fromkeys :: "'a list \<Rightarrow> 'a list" where
  "dict_fromkeys [] = []"
| "dict_fromkeys (x # xs) = x # dict_fromkeys (filter (\<lambda>y. y \<noteq> x) xs)"

text \<open>The default role of \<open>Person\<close>, the two code points U+5176 U+4ED6 ("other").\<close>

definition ROLE_OTHER :: pystr where
  "ROLE_OTHER = [20854, 20182]"

text \<open>
  The variables of the merging branch of \<open>merge_person\<close>: \<open>existing_aliases\<close> and
  \<open>new_aliases\<close>, the proposed alias set.
\<close>

definition existing_aliases :: "Person \<Rightarrow> pystr set" where
  "existing_aliases existing = insert (original_name existing) (set (aliases existing))"

definition new_aliases :: "Person \<Rightarrow> Person \<Rightarrow> pystr set" where
  "new_aliases existing person =
     ((existing_aliases existing \<union> all_names person) - {original_name existing}) - {[]}"

text \<open>Python's truth value of an optional year and of an optional string.\<close>

definition truthy_year :: "int option \<Rightarrow> bool" where
  "truthy_year y = (case y of None \<Rightarrow> False | Some v \<Rightarrow> v \<noteq> 0)"

definition truthy_str :: "pystr option \<Rightarrow> bool" where
  "truthy_str s = (case s of None \<Rightarrow> False | Some v \<Rightarrow> v \<noteq> [])"

text \<open>
  The \<open>SET\<close> clause of the merging branch, computed from the record \<open>existing\<close> that the
  lookup returned and applied to the node matched by \<open>uid\<close>.
\<close>

definition merge_update :: "Person \<Rightarrow> Person \<Rightarrow> Person \<Rightarrow> Person" where
  "merge_update existing person n =
     n\<lparr>aliases := sorted_list_of_set (new_aliases existing person),
       loyalty := dict_fromkeys (loyalty existing @ loyalty person),
       description :=
         (if length (description person) > length (description existing)
          then description person else description existing),
       birth_year :=
         (if truthy_year (birth_year person) \<and> \<not> truthy_year (birth_year existing)
          then birth_year person else birth_year n),
       death_year :=
         (if truthy_year (death_year person) \<and> \<not> truthy_year (death_year existing)
          then death_year person else death_year n),
       death_cause :=
         (if truthy_str (death_cause person) \<and> \<not> truthy_str (death_cause existing)
          then death_cause person else death_cause n),
       role :=
         (if role person \<noteq> [] \<and> role person \<noteq> ROLE_OTHER
             \<and> (role existing = ROLE_OTHER \<or> role existing = [])
          then role person else role n)\<rparr>"

text \<open>\<open>GraphCRUD.merge_person\<close>; the result is the graph after the write and the uid returned.\<close>

definition merge_person :: "graph \<Rightarrow> Person \<Rightarrow> graph \<times> pystr" where
  "merge_person g person =
     (case find_person_by_any_name g (all_names person) True of
        Some existing \<Rightarrow>
          if card (new_aliases existing person) > 25
          then (upsert_person g person, uid person)
          else (g\<lparr>persons :=
                    map (\<lambda>n. if uid n = uid existing then merge_update existing person n else n)
                      (persons g)\<rparr>,
                uid existing)
      | None \<Rightarrow> (upsert_person g person, uid person))"

section \<open>Relation resolution (\<open>graph/crud.py\<close>)\<close>

text \<open>
  \<open>GraphCRUD.resolve_person_uid\<close> and \<open>GraphCRUD.resolve_node_uid\<close>: the name is compared
  with \<open>original_name\<close> and the aliases as it is given; each query has \<open>LIMIT 1\<close>.
\<close>

definition resolve_person_uid :: "graph \<Rightarrow> pystr \<Rightarrow> pystr option" where
  "resolve_person_uid g name =
     (if name = [] then None
      else (case List.find (\<lambda>p. original_name p = name \<or> name \<in> set (aliases p)) (persons g) of
              Some p \<Rightarrow> Some (uid p)
            | None \<Rightarrow> None))"

definition resolve_node_uid :: "graph \<Rightarrow> pystr \<Rightarrow> pystr option" where
  "resolve_node_uid g name =
     (if name = [] then None
      else (case List.find (\<lambda>p. original_name p = name \<or> name \<in> set (aliases p)) (persons g) of
              Some p \<Rightarrow> Some (uid p)
            | None \<Rightarrow>
                (case List.find (\<lambda>d. dynasty_name d = name) (dynasties g) of
                   Some d \<Rightarrow> Some (dynasty_uid d)
                 | None \<Rightarrow>
                     (case List.find (\<lambda>e. event_name e = name) (events g) of
                        Some e \<Rightarrow> Some (event_uid e)
                      | None \<Rightarrow>
                          (case List.find (\<lambda>pl. place_name pl = name) (places g) of
                             Some pl \<Rightarrow> Some (place_uid pl)
                           | None \<Rightarrow> None)))))"

text \<open>\<open>MATCH (a {uid: $uid})\<close> without a label: every node of that uid, whatever its label.\<close>

definition nodes_with_uid :: "graph \<Rightarrow> pystr \<Rightarrow> node_ref list" where
  "nodes_with_uid g u =
     (if \<exists>p \<in> set (persons g). uid p = u then [(PersonL, u)] else []) @
     (if \<exists>d \<in> set (dynasties g). dynasty_uid d = u then [(DynastyL, u)] else []) @
     (if \<exists>e \<in> set (events g). event_uid e = u then [(EventL, u)] else []) @
     (if \<exists>pl \<in> set (places g). place_uid pl = u then [(PlaceL, u)] else [])"

text \<open>
  \<open>MERGE (a)-[r:T]->(b) SET ...\<close>: the edges of that type between the two nodes take the
  \<open>SET\<close> clause; when there is none, one is created and takes it.
\<close>

definition merge_edge :: "node_ref \<Rightarrow> pystr \<Rightarrow> node_ref \<Rightarrow> (edge \<Rightarrow> edge) \<Rightarrow> edge list \<Rightarrow> edge list" where
  "merge_edge a t b upd es =
     (if \<exists>e \<in> set es. edge_src e = a \<and> edge_type e = t \<and> edge_dst e = b
      then map (\<lambda>e. if edge_src e = a \<and> edge_type e = t \<and> edge_dst e = b then upd e else e) es
      else es @ [upd \<lparr>edge_src = a, edge_type = t, edge_dst = b,
                       edge_description = None, edge_year = None, edge_role = None\<rparr>])"

text \<open>The literals \<open>"RELATED_TO"\<close> and \<open>"PARTICIPATED_IN"\<close>.\<close>

definition RELATED_TO :: pystr where
  "RELATED_TO = [82, 69, 76, 65, 84, 69, 68, 95, 84, 79]"

definition PARTICIPATED_IN :: pystr where
  "PARTICIPATED_IN = [80, 65, 82, 84, 73, 67, 73, 80, 65, 84, 69, 68, 95, 73, 78]"

text \<open>
  The cleaning of the relation type in \<open>create_relation_by_name\<close>. \<open>str.upper\<close> and
  \<open>str.isalnum\<close> are Python's, over all of Unicode; they are parameters here. Space (32) and
  hyphen (45) become the underscore (95), then every code point that is neither alphanumeric
  nor the underscore does.
\<close>

definition clean_rel_type :: "(pystr \<Rightarrow> pystr) \<Rightarrow> (nat \<Rightarrow> bool) \<Rightarrow> pystr \<Rightarrow> pystr" where
  "clean_rel_type py_upper py_isalnum t =
     (let r1 = map (\<lambda>c. if c = 45 then 95 else c) (map (\<lambda>c. if c = 32 then 95 else c) (py_upper t));
          r2 = map (\<lambda>c. if py_isalnum c \<or> c = 95 then c else 95) r1
      in if r2 = [] then RELATED_TO else r2)"

text \<open>\<open>Relation.neo4j_properties()\<close> under \<open>SET r += $props\<close>.\<close>

definition set_relation_props :: "Relation \<Rightarrow> edge \<Rightarrow> edge" where
  "set_relation_props relation e =
     e\<lparr>edge_description := Some (relation_description relation),
       edge_year := (case relation_year relation of None \<Rightarrow> edge_year e | Some y \<Rightarrow> Some y)\<rparr>"

text \<open>
  \<open>GraphCRUD.create_relation_by_name\<close>. \<open>if not source_uid\<close> is true of \<open>None\<close> and of
  the empty uid alike. Once both ends are resolved the edge is merged between every pair of
  nodes carrying the two uids; the store is taken to accept the statement, so the call
  returns \<open>True\<close>.
\<close>

definition create_relation_by_name ::
  "(pystr \<Rightarrow> pystr) \<Rightarrow> (nat \<Rightarrow> bool) \<Rightarrow> graph \<Rightarrow> Relation \<Rightarrow> graph \<times> bool" where
  "create_relation_by_name py_upper py_isalnum g relation =
     (let source_uid = resolve_node_uid g (source relation);
          target_uid = resolve_node_uid g (target relation)
      in if source_uid = None \<or> source_uid = Some [] then (g, False)
         else if target_uid = None \<or> target_uid = Some [] then (g, False)
         else let rel_type = clean_rel_type py_upper py_isalnum (relation_type relation)
              in (g\<lparr>edges :=
                      fold (\<lambda>(a, b). merge_edge a rel_type b (set_relation_props relation))
                        (List.product (nodes_with_uid g (the source_uid))
                                      (nodes_with_uid g (the target_uid)))
                        (edges g)\<rparr>,
                  True))"

text \<open>The default \<open>role\<close> argument of \<open>link_event_participant\<close> (three code points, "participant").\<close>

definition DEFAULT_PARTICIPANT_ROLE :: pystr where
  "DEFAULT_PARTICIPANT_ROLE = [21442, 19982, 32773]"

text \<open>\<open>GraphCRUD.link_event_participant\<close>.\<close>

definition link_event_participant :: "graph \<Rightarrow> pystr \<Rightarrow> pystr \<Rightarrow> pystr \<Rightarrow> graph" where
  "link_event_participant g euid person_name participant_role =
     (let person_uid = resolve_person_uid g person_name;
          person_uid' =
            (if person_uid = None \<or> person_uid = Some []
             then (if \<exists>p \<in> set (persons g). uid p = person_name then Some person_name else None)
             else person_uid)
      in case person_uid' of
           None \<Rightarrow> g
         | Some pu \<Rightarrow>
             if (\<exists>e \<in> set (events g). event_uid e = euid) \<and> (\<exists>p \<in> set (persons g). uid p = pu)
             then g\<lparr>edges := merge_edge (PersonL, pu) PARTICIPATED_IN (EventL, euid)
                                (\<lambda>e. e\<lparr>edge_role := Some participant_role\<rparr>) (edges g)\<rparr>
             else g)"

text \<open>\<open>upsert_dynasty\<close>, \<open>upsert_place\<close>, \<open>upsert_event\<close>: \<open>MERGE\<close> on the uid, then \<open>SET +=\<close>.\<close>

definition upsert_dynasty :: "graph \<Rightarrow> Dynasty \<Rightarrow> graph" where
  "upsert_dynasty g d =
     (if \<exists>n \<in> set (dynasties g). dynasty_uid n = dynasty_uid d
      then g\<lparr>dynasties := map (\<lambda>n. if dynasty_uid n = dynasty_uid d then d else n) (dynasties g)\<rparr>
      else g\<lparr>dynasties := dynasties g @ [d]\<rparr>)"

definition upsert_place :: "graph \<Rightarrow> Place \<Rightarrow> graph" where
  "upsert_place g pl =
     (if \<exists>n \<in> set (places g). place_uid n = place_uid pl
      then g\<lparr>places := map (\<lambda>n. if place_uid n = place_uid pl then pl else n) (places g)\<rparr>
      else g\<lparr>places := places g @ [pl]\<rparr>)"

definition set_event_props :: "Event \<Rightarrow> Event \<Rightarrow> Event" where
  "set_event_props ev n =
     n\<lparr>event_name := event_name ev,
       participants := participants ev,
       event_description := event_description ev,
       event_year := (case event_year ev of None \<Rightarrow> event_year n | Some y \<Rightarrow> Some y)\<rparr>"

definition upsert_event :: "graph \<Rightarrow> Event \<Rightarrow> graph" where
  "upsert_event g ev =
     (if \<exists>n \<in> set (events g). event_uid n = event_uid ev
      then g\<lparr>events := map (\<lambda>n. if event_uid n = event_uid ev then set_event_props ev n else n) (events g)\<rparr>
      else g\<lparr>events := events g @ [ev]\<rparr>)"

section \<open>Temporal relation repair (\<open>scripts/llm_batch_cleanup.py\<close>)\<close>

text \<open>\<open>MEMORIAL_KEYWORDS\<close>, each keyword as its code points.\<close>

definition MEMORIAL_KEYWORDS :: "pystr list" where
  "MEMORIAL_KEYWORDS =
     [[36861, 23553], [36861, 36192], [36861, 35877], [31085], [33900], [38517],
      [23433, 33900], [36951, 21629], [36951, 35791], [24217, 21495], [35877, 21495]]"

text \<open>
  \<open>any(kw in desc for kw in MEMORIAL_KEYWORDS)\<close>, where \<open>desc\<close> is the event's description
  followed by its name; Python's \<open>kw in desc\<close> on strings is the contiguous-sublist test.
\<close>

definition memorial :: "Event \<Rightarrow> bool" where
  "memorial e =
     (\<exists>kw \<in> set MEMORIAL_KEYWORDS. sublist kw (event_description e @ event_name e))"

text \<open>Assignment to a Python \<open>dict\<close>: a known key keeps its place, a new one goes last.\<close>

fun dict_set :: "'k \<Rightarrow> 'v \<Rightarrow> ('k \<times> 'v) list \<Rightarrow> ('k \<times> 'v) list" where
  "dict_set k v [] = [(k, v)]"
| "dict_set k v ((k', v') # kvs) = (if k = k' then (k, v) # kvs else (k', v') # dict_set k v kvs)"

text \<open>
  \<open>run_phase2_event_relations\<close>, its first two steps: the table \<open>death_years\<close> and the loop
  that removes the relations after death. The whole pass follows below.
\<close>

definition death_years :: "graph \<Rightarrow> (pystr \<times> int) list" where
  "death_years g =
     fold (\<lambda>p d. case death_year p of None \<Rightarrow> d | Some dy \<Rightarrow> dict_set (uid p) dy d) (persons g) []"

text \<open>
  The rows of the query for one person: the events reached by an outgoing
  \<open>PARTICIPATED_IN\<close> edge whose year is known and greater than the year of death.
\<close>

definition post_death :: "graph \<Rightarrow> pystr \<Rightarrow> int \<Rightarrow> Event list" where
  "post_death g u dy =
     (if \<exists>p \<in> set (persons g). uid p = u
      then concat (map (\<lambda>ed.
             if edge_src ed = (PersonL, u) \<and> edge_type ed = PARTICIPATED_IN \<and> fst (edge_dst ed) = EventL
             then filter (\<lambda>e. event_uid e = snd (edge_dst ed)
                              \<and> (case event_year e of None \<Rightarrow> False | Some y \<Rightarrow> y > dy))
                    (events g)
             else []) (edges g))
      else [])"

definition remove_for_person :: "pystr \<times> int \<Rightarrow> graph \<Rightarrow> graph" where
  "remove_for_person = (\<lambda>(u, dy) g.
     (let rows = post_death g u dy;
          to_remove = map event_uid (filter (\<lambda>e. \<not> memorial e) rows)
      in if to_remove = [] then g
         else g\<lparr>edges :=
                 filter (\<lambda>ed. \<not> (edge_src ed = (PersonL, u) \<and> edge_type ed = PARTICIPATED_IN
                                  \<and> fst (edge_dst ed) = EventL
                                  \<and> (\<exists>p \<in> set (persons g). uid p = u)
                                  \<and> (\<exists>e \<in> set (events g). event_uid e = snd (edge_dst ed))
                                  \<and> snd (edge_dst ed) \<in> set to_remove))
                   (edges g)\<rparr>))"

definition remove_post_death_relations :: "graph \<Rightarrow> graph" where
  "remove_post_death_relations g = fold remove_for_person (death_years g) g"

text \<open>
  \<open>get_all_person_name_map\<close>: every \<open>original_name\<close> is set to its person's uid; an
  alias of more than one character is set only when the dictionary does not have it yet.
\<close>

definition get_all_person_name_map :: "graph \<Rightarrow> (pystr \<times> pystr) list" where
  "get_all_person_name_map g =
     fold (\<lambda>p name_map.
             fold (\<lambda>alias name_map.
                     if alias \<noteq> [] \<and> length alias > 1 \<and> map_of name_map alias = None
                     then dict_set alias (uid p) name_map else name_map)
               (aliases p) (dict_set (original_name p) (uid p) name_map))
       (persons g) []"

text \<open>
  Step 4 of \<open>run_phase2_event_relations\<close> for one event. Here \<open>desc\<close> is the description,
  a space (32) and the name. \<open>should_link\<close> and \<open>final_link\<close> are Python sets; they are
  kept as lists without repetition, in the order of insertion, which decides only the order
  in which edges are created.
\<close>

definition should_link :: "(pystr \<times> pystr) list \<Rightarrow> Event \<Rightarrow> pystr list" where
  "should_link name_map e =
     (let desc = event_description e @ [32] @ event_name e
      in dict_fromkeys
           (concat (map (\<lambda>pname. case map_of name_map pname of
                                    None \<Rightarrow> []
                                  | Some u \<Rightarrow> if u \<noteq> [] then [u] else [])
                      (participants e))
            @ map snd (filter (\<lambda>(name, u). length name \<ge> 2 \<and> sublist name desc) name_map)))"

definition final_link :: "(pystr \<times> int) list \<Rightarrow> (pystr \<times> pystr) list \<Rightarrow> Event \<Rightarrow> pystr list" where
  "final_link dys name_map e =
     (let desc = event_description e @ [32] @ event_name e
      in filter (\<lambda>u. if truthy_year (map_of dys u) \<and> truthy_year (event_year e)
                          \<and> (case (event_year e, map_of dys u) of
                                (Some y, Some dy) \<Rightarrow> y > dy
                              | _ \<Rightarrow> False)
                       then (\<exists>kw \<in> set MEMORIAL_KEYWORDS. sublist kw desc)
                       else True)
           (should_link name_map e))"

text \<open>
  \<open>_flush_event_links\<close>: for each event of the batch and each person to link, the edges
  between the two nodes are counted, and when there is none one is merged with the default
  role.
\<close>

definition flush_event_link :: "pystr \<Rightarrow> pystr \<Rightarrow> graph \<Rightarrow> graph" where
  "flush_event_link euid puid g =
     (let both = ((\<exists>p \<in> set (persons g). uid p = puid) \<and> (\<exists>e \<in> set (events g). event_uid e = euid));
          cnt = (if both
                 then length (filter (\<lambda>ed. edge_src ed = (PersonL, puid)
                                          \<and> edge_type ed = PARTICIPATED_IN
                                          \<and> edge_dst ed = (EventL, euid)) (edges g))
                 else 0)
      in if cnt = 0 \<and> both
         then g\<lparr>edges := merge_edge (PersonL, puid) PARTICIPATED_IN (EventL, euid)
                            (\<lambda>ed. ed\<lparr>edge_role := Some DEFAULT_PARTICIPANT_ROLE\<rparr>) (edges g)\<rparr>
         else g)"

definition flush_event_links :: "(pystr \<times> pystr list) list \<Rightarrow> graph \<Rightarrow> graph" where
  "flush_event_links batch g =
     fold (\<lambda>(euid, person_uids) g. fold (flush_event_link euid) person_uids g) batch g"

text \<open>The loop over the events, with its batch, flushed at 200 entries and at the end.\<close>

fun relink_events ::
  "(pystr \<times> int) list \<Rightarrow> (pystr \<times> pystr) list \<Rightarrow> Event list \<Rightarrow> (pystr \<times> pystr list) list
     \<Rightarrow> graph \<Rightarrow> graph" where
  "relink_events dys name_map [] batch g = (if batch \<noteq> [] then flush_event_links batch g else g)"
| "relink_events dys name_map (e # es) batch g =
     (if final_link dys name_map e \<noteq> []
      then (if length (batch @ [(event_uid e, final_link dys name_map e)]) \<ge> 200
            then relink_events dys name_map es []
                   (flush_event_links (batch @ [(event_uid e, final_link dys name_map e)]) g)
            else relink_events dys name_map es (batch @ [(event_uid e, final_link dys name_map e)]) g)
      else (if length batch \<ge> 200
            then relink_events dys name_map es [] (flush_event_links batch g)
            else relink_events dys name_map es batch g))"

text \<open>
  Step 5: the edges from a node to itself are deleted; of the edges of one type between the
  same two nodes the first is kept.
\<close>

fun collapse_parallel :: "edge list \<Rightarrow> edge list" where
  "collapse_parallel [] = []"
| "collapse_parallel (ed # eds) =
     ed # collapse_parallel
            (filter (\<lambda>x. \<not> (edge_src x = edge_src ed \<and> edge_dst x = edge_dst ed
                              \<and> edge_type x = edge_type ed)) eds)"

text \<open>
  \<open>run_phase2_event_relations\<close>, the whole pass on the graph: the table of death years, the
  removal loop, the name map read after it, the re-linking of every event, the clean-up. The
  pass's own progress file is not part of the graph and is left out.
\<close>

definition run_phase2_event_relations :: "graph \<Rightarrow> graph" where
  "run_phase2_event_relations g =
     (let dys = death_years g;
          g1 = fold remove_for_person dys g;
          name_map = get_all_person_name_map g1;
          g2 = relink_events dys name_map (events g1) [] g1
      in g2\<lparr>edges := collapse_parallel (filter (\<lambda>ed. edge_src ed \<noteq> edge_dst ed) (edges g2))\<rparr>)"

section \<open>Ingestion pipeline (\<open>ingestion/pipeline.py\<close>)\<close>

record TextChunk =
  chunk_id :: pystr
  chunk_chapter :: pystr
  chunk_content :: pystr

record ExtractionResult =
  res_persons :: "Person list"
  res_dynasties :: "Dynasty list"
  res_events :: "Event list"
  res_places :: "Place list"
  res_relations :: "Relation list"

text \<open>
  \<open>IngestionPipeline._write_result_to_neo4j\<close>, in the run where every store operation
  succeeds. It never raises: each operation is inside its own \<open>try\<close>.
\<close>

definition write_result_to_neo4j ::
  "(pystr \<Rightarrow> pystr) \<Rightarrow> (nat \<Rightarrow> bool) \<Rightarrow> graph \<Rightarrow> ExtractionResult \<Rightarrow> graph" where
  "write_result_to_neo4j py_upper py_isalnum g result =
     (let g1 = fold (\<lambda>d g. upsert_dynasty g d) (res_dynasties result) g;
          g2 = fold (\<lambda>pl g. upsert_place g pl) (res_places result) g1;
          g3 = fold (\<lambda>p g. fst (merge_person g p)) (res_persons result) g2;
          g4 = fold (\<lambda>ev g.
                  fold (\<lambda>participant_name g.
                          link_event_participant g (event_uid ev) participant_name
                            DEFAULT_PARTICIPANT_ROLE)
                    (participants ev) (upsert_event g ev))
                 (res_events result) g3
      in fold (\<lambda>relation g. fst (create_relation_by_name py_upper py_isalnum g relation))
           (res_relations result) g4)"

text \<open>
  The progress file \<open>progress.json\<close>: absent, present but not loadable, or holding a set of
  chunk ids.
\<close>

datatype progress_file = Missing | Unreadable | Saved "pystr set"

text \<open>
  The pipeline object with what it acts on: its set \<open>_processed_chunks\<close>, the progress
  file, the graph store, the chunk ids handed to the extractor so far, and the local list
  \<open>results\<close> of \<open>run\<close>.
\<close>

record pipeline =
  processed_chunks :: "pystr set"
  progress :: progress_file
  store :: graph
  extract_calls :: "pystr list"
  results :: "ExtractionResult list"

text \<open>
  What the surroundings decide during a run. \<open>extract_from_chunk\<close> is the answer of
  \<open>extractor.extract_from_chunk\<close> to the chunk at a loop index on the current store
  (\<open>None\<close> when the extraction fails); the three predicates say whether the write of the
  progress file, the write of the results file and the statistics query of
  \<open>get_graph_stats\<close> succeed at a save point; the two flags say whether
  \<open>clear_database\<close> and the loading of the chunks (\<open>chunks.json\<close> or
  \<open>process_raw_files\<close>) succeed. None of these calls is inside a \<open>try\<close> in \<open>run\<close>.
\<close>

datatype save_point = Periodic nat | Final

record run_env =
  extract_from_chunk :: "nat \<Rightarrow> graph \<Rightarrow> TextChunk \<Rightarrow> ExtractionResult option"
  progress_write_ok :: "save_point \<Rightarrow> bool"
  results_write_ok :: "save_point \<Rightarrow> bool"
  graph_stats_ok :: "save_point \<Rightarrow> bool"
  clear_database_ok :: bool
  load_chunks_ok :: bool

datatype run_error = CheckpointIOError | StoreQueryError | StoreClearError | ChunkLoadError

text \<open>\<open>IngestionPipeline._load_progress\<close>.\<close>

definition load_progress :: "pipeline \<Rightarrow> pipeline" where
  "load_progress s =
     (case progress s of
        Missing \<Rightarrow> s
      | Unreadable \<Rightarrow> s\<lparr>processed_chunks := {}\<rparr>
      | Saved ids \<Rightarrow> s\<lparr>processed_chunks := ids\<rparr>)"

text \<open>
  A save point of \<open>run\<close>: \<open>_save_progress\<close>, \<open>_save_extraction_results\<close>, then
  \<open>get_graph_stats\<close>; none of the three calls is inside a \<open>try\<close>, so the first that
  raises ends the run.
\<close>

definition save_point_step :: "run_env \<Rightarrow> save_point \<Rightarrow> pipeline \<Rightarrow> pipeline \<times> run_error option" where
  "save_point_step env sp s =
     (if \<not> progress_write_ok env sp then (s, Some CheckpointIOError)
      else let s' = s\<lparr>progress := Saved (processed_chunks s)\<rparr>
           in if \<not> results_write_ok env sp then (s', Some CheckpointIOError)
              else if \<not> graph_stats_ok env sp then (s', Some StoreQueryError)
              else (s', None))"

text \<open>
  One turn of the loop of step 3 of \<open>run\<close>, up to the record of progress: the chunk goes
  to the extractor; a result is appended to \<open>results\<close> and written at once by \<open>writer\<close>
  (\<open>_write_result_to_neo4j\<close>), a failure is only logged; either way the chunk id joins
  \<open>_processed_chunks\<close>.
\<close>

definition process_chunk ::
  "(graph \<Rightarrow> ExtractionResult \<Rightarrow> graph) \<Rightarrow> run_env \<Rightarrow> nat \<Rightarrow> TextChunk \<Rightarrow> pipeline \<Rightarrow> pipeline" where
  "process_chunk writer env i chunk s =
     (let s1 = s\<lparr>extract_calls := extract_calls s @ [chunk_id chunk]\<rparr>;
          s2 = (case extract_from_chunk env i (store s) chunk of
                  Some result \<Rightarrow> s1\<lparr>results := results s1 @ [result],
                                      store := writer (store s1) result\<rparr>
                | None \<Rightarrow> s1)
      in s2\<lparr>processed_chunks := insert (chunk_id chunk) (processed_chunks s2)\<rparr>)"

text \<open>
  The loop from index \<open>i\<close> on: after every tenth chunk a save point, which ends the run
  when it raises.
\<close>

fun process_chunks ::
  "(graph \<Rightarrow> ExtractionResult \<Rightarrow> graph) \<Rightarrow> run_env \<Rightarrow> nat \<Rightarrow> TextChunk list \<Rightarrow> pipeline
     \<Rightarrow> pipeline \<times> run_error option" where
  "process_chunks writer env i [] s = (s, None)"
| "process_chunks writer env i (chunk # rest) s =
     (if (i + 1) mod 10 = 0
      then (case save_point_step env (Periodic (i + 1)) (process_chunk writer env i chunk s) of
              (s4, Some err) \<Rightarrow> (s4, Some err)
            | (s4, None) \<Rightarrow> process_chunks writer env (i + 1) rest s4)
      else process_chunks writer env (i + 1) rest (process_chunk writer env i chunk s))"

text \<open>Python's slices \<open>xs[n:]\<close> and \<open>xs[:n]\<close>, a negative bound counting from the end.\<close>

definition slice_from :: "int \<Rightarrow> 'a list \<Rightarrow> 'a list" where
  "slice_from n xs = (if 0 \<le> n then drop (nat n) xs else drop (length xs - nat (- n)) xs)"

definition slice_to :: "int \<Rightarrow> 'a list \<Rightarrow> 'a list" where
  "slice_to n xs = (if 0 \<le> n then take (nat n) xs else take (length xs - nat (- n)) xs)"

definition empty_graph :: graph where
  "empty_graph = \<lparr>persons = [], dynasties = [], events = [], places = [], edges = []\<rparr>"

text \<open>
  \<open>IngestionPipeline.run\<close>. \<open>clear_database\<close> empties the store; \<open>chunks\<close> is the unit
  sequence that the loading yields when it succeeds. \<open>init_constraints\<close> guards each of
  its statements and writes no node or edge.
\<close>

definition run ::
  "(graph \<Rightarrow> ExtractionResult \<Rightarrow> graph) \<Rightarrow> run_env \<Rightarrow> TextChunk list
     \<Rightarrow> bool \<Rightarrow> bool \<Rightarrow> int option \<Rightarrow> int \<Rightarrow> pipeline \<Rightarrow> pipeline \<times> run_error option" where
  "run writer env chunks clear_db resume max_chunks start_from s =
     (if clear_db \<and> \<not> clear_database_ok env then (s, Some StoreClearError)
      else let s1 = (if clear_db then s\<lparr>store := empty_graph, processed_chunks := {}\<rparr>
                     else if resume then load_progress s else s)
      in if \<not> load_chunks_ok env then (s1, Some ChunkLoadError)
         else if chunks = [] then (s1, None)
         else let chunks1 = (if resume \<and> processed_chunks s1 \<noteq> {}
                             then filter (\<lambda>c. chunk_id c \<notin> processed_chunks s1) chunks
                             else chunks);
                  chunks2 = (if start_from > 0 then slice_from start_from chunks1 else chunks1);
                  chunks3 = (case max_chunks of None \<Rightarrow> chunks2 | Some m \<Rightarrow> slice_to m chunks2)
              in case process_chunks writer env 0 chunks3 (s1\<lparr>results := []\<rparr>) of
                   (s2, Some err) \<Rightarrow> (s2, Some err)
                 | (s2, None) \<Rightarrow> save_point_step env Final s2)"

section \<open>Properties and example data\<close>

text \<open>
  What it means for a node \<open>n'\<close> to have kept the uid and the populated scalars of
  \<open>n\<close>; populated is read as the code reads it, by Python's truth value.
\<close>

definition scalars_kept :: "Person \<Rightarrow> Person \<Rightarrow> bool" where
  "scalars_kept n n' =
     (uid n' = uid n
      \<and> (truthy_year (birth_year n) \<longrightarrow> birth_year n' = birth_year n)
      \<and> (truthy_year (death_year n) \<longrightarrow> death_year n' = death_year n)
      \<and> (truthy_str (death_cause n) \<longrightarrow> death_cause n' = death_cause n)
      \<and> (role n \<noteq> [] \<and> role n \<noteq> ROLE_OTHER \<longrightarrow> role n' = role n))"

text \<open>
  Example data. Names and uids are short strings of code points; where a blacklisted title or
  a memorial keyword is needed it is the one of the source (22826 23447 is the first title
  of \<open>AMBIGUOUS_TITLES\<close>, 26187 29579 the title of the princes of Jin, 23433 33900 the
  keyword for a burial).
\<close>

definition ex_crowded :: Person where
  "ex_crowded = \<lparr>uid = [112, 1], original_name = [65, 66], aliases = [[66, 1], [66, 2], [66, 3], [66, 4], [66, 5], [66, 6], [66, 7], [66, 8], [66, 9], [66, 10], [66, 11], [66, 12], [66, 13], [66, 14], [66, 15], [66, 16], [66, 17], [66, 18], [66, 19], [66, 20], [66, 21], [66, 22], [66, 23], [66, 24], [66, 25]],
     role = ROLE_OTHER, loyalty = [], birth_year = None, death_year = None,
     death_cause = None, description = []\<rparr>"

definition ex_same_uid :: Person where
  "ex_same_uid = \<lparr>uid = [112, 1], original_name = [65, 66], aliases = [[66, 26]],
     role = ROLE_OTHER, loyalty = [], birth_year = None, death_year = None,
     death_cause = None, description = []\<rparr>"

definition ex_fresh_uid :: Person where
  "ex_fresh_uid = \<lparr>uid = [112, 2], original_name = [65, 66], aliases = [[66, 26]],
     role = ROLE_OTHER, loyalty = [], birth_year = None, death_year = None,
     death_cause = None, description = []\<rparr>"

definition ex_crowded_graph :: graph where
  "ex_crowded_graph = \<lparr>persons = [ex_crowded], dynasties = [], events = [], places = [], edges = []\<rparr>"

definition ex_zhu :: Person where
  "ex_zhu = \<lparr>uid = [112, 3], original_name = [90, 87], aliases = [],
     role = ROLE_OTHER, loyalty = [], birth_year = None, death_year = None,
     death_cause = None, description = []\<rparr>"

definition ex_zhu_again :: Person where
  "ex_zhu_again = \<lparr>uid = [112, 4], original_name = [90, 87], aliases = [[90, 81], [90, 72]],
     role = ROLE_OTHER, loyalty = [], birth_year = None, death_year = None,
     death_cause = None, description = []\<rparr>"

definition ex_zhu_graph :: graph where
  "ex_zhu_graph = \<lparr>persons = [ex_zhu], dynasties = [], events = [], places = [], edges = []\<rparr>"

definition ex_alias_holder :: Person where
  "ex_alias_holder = \<lparr>uid = [112, 5], original_name = [76, 75], aliases = [[90, 87]],
     role = ROLE_OTHER, loyalty = [], birth_year = None, death_year = None,
     death_cause = None, description = []\<rparr>"

definition ex_priority_graph :: graph where
  "ex_priority_graph = \<lparr>persons = [ex_alias_holder, ex_zhu], dynasties = [], events = [], places = [], edges = []\<rparr>"

definition ex_title_node :: Person where
  "ex_title_node = \<lparr>uid = [112, 6], original_name = [22826, 23447], aliases = [],
     role = ROLE_OTHER, loyalty = [], birth_year = None, death_year = None,
     death_cause = None, description = []\<rparr>"

definition ex_title_candidate :: Person where
  "ex_title_candidate = \<lparr>uid = [112, 7], original_name = [22826, 23447], aliases = [],
     role = ROLE_OTHER, loyalty = [], birth_year = None, death_year = None,
     death_cause = None, description = []\<rparr>"

definition ex_title_twin :: Person where
  "ex_title_twin = \<lparr>uid = [112, 6], original_name = [22826, 23447], aliases = [],
     role = ROLE_OTHER, loyalty = [], birth_year = None, death_year = None,
     death_cause = None, description = [66]\<rparr>"

definition ex_title_graph :: graph where
  "ex_title_graph = \<lparr>persons = [ex_title_node], dynasties = [], events = [], places = [], edges = []\<rparr>"

definition ex_dated :: Person where
  "ex_dated = \<lparr>uid = [112, 8], original_name = [90, 87], aliases = [],
     role = [69], loyalty = [], birth_year = None, death_year = Some 912,
     death_cause = None, description = []\<rparr>"

definition ex_overwriter :: Person where
  "ex_overwriter = \<lparr>uid = [112, 8], original_name = [76, 75], aliases = [],
     role = [71], loyalty = [], birth_year = None, death_year = Some 900,
     death_cause = None, description = []\<rparr>"

definition ex_dated_rival :: Person where
  "ex_dated_rival = \<lparr>uid = [112, 9], original_name = [90, 87], aliases = [],
     role = [71], loyalty = [], birth_year = None, death_year = Some 900,
     death_cause = None, description = []\<rparr>"

definition ex_dated_graph :: graph where
  "ex_dated_graph = \<lparr>persons = [ex_dated], dynasties = [], events = [], places = [], edges = []\<rparr>"

text \<open>The \<open>WHERE\<close> clause of the person queries of the two resolvers.\<close>

definition person_named :: "pystr \<Rightarrow> Person \<Rightarrow> bool" where
  "person_named name p = (original_name p = name \<or> name \<in> set (aliases p))"

definition ex_li :: Person where
  "ex_li = \<lparr>uid = [112, 10], original_name = [76, 75], aliases = [[26187, 29579], [20]],
     role = ROLE_OTHER, loyalty = [], birth_year = None, death_year = Some 912,
     death_cause = None, description = []\<rparr>"

definition ex_jin :: Dynasty where
  "ex_jin = \<lparr>dynasty_uid = [100, 1], dynasty_name = [26187, 29579], dynasty_description = []\<rparr>"

definition ex_battle :: Event where
  "ex_battle = \<lparr>event_uid = [101, 1], event_name = [66, 65], event_year = Some 920,
     participants = [], event_description = [66, 66]\<rparr>"

definition ex_relation_graph :: graph where
  "ex_relation_graph = \<lparr>persons = [ex_li], dynasties = [ex_jin], events = [ex_battle],
     places = [], edges = []\<rparr>"

definition ex_relation :: Relation where
  "ex_relation = \<lparr>source = [76, 75], target = [76, 83], relation_type = [65],
     relation_year = None, relation_description = []\<rparr>"

text \<open>
  The edges that the removal step deletes for a person \<open>u\<close> with death year \<open>dy\<close>.
\<close>

definition removable :: "graph \<Rightarrow> pystr \<Rightarrow> int \<Rightarrow> edge \<Rightarrow> bool" where
  "removable g u dy ed =
     (edge_src ed = (PersonL, u) \<and> edge_type ed = PARTICIPATED_IN \<and> fst (edge_dst ed) = EventL
      \<and> (\<exists>p \<in> set (persons g). uid p = u)
      \<and> (\<exists>e \<in> set (events g). event_uid e = snd (edge_dst ed)
             \<and> (\<exists>y. event_year e = Some y \<and> dy < y) \<and> \<not> memorial e))"

definition ex_burial :: Event where
  "ex_burial = \<lparr>event_uid = [101, 2], event_name = [66, 67], event_year = Some 920,
     participants = [], event_description = [23433, 33900, 76, 75]\<rparr>"

definition ex_edge_battle :: edge where
  "ex_edge_battle = \<lparr>edge_src = (PersonL, [112, 10]), edge_type = PARTICIPATED_IN,
     edge_dst = (EventL, [101, 1]), edge_description = None, edge_year = None,
     edge_role = Some DEFAULT_PARTICIPANT_ROLE\<rparr>"

definition ex_edge_burial :: edge where
  "ex_edge_burial = \<lparr>edge_src = (PersonL, [112, 10]), edge_type = PARTICIPATED_IN,
     edge_dst = (EventL, [101, 2]), edge_description = None, edge_year = None,
     edge_role = Some DEFAULT_PARTICIPANT_ROLE\<rparr>"

definition ex_repair_graph :: graph where
  "ex_repair_graph = \<lparr>persons = [ex_li], dynasties = [], events = [ex_battle, ex_burial],
     places = [], edges = [ex_edge_battle, ex_edge_burial]\<rparr>"

definition ex_chunk :: "nat \<Rightarrow> TextChunk" where
  "ex_chunk n = \<lparr>chunk_id = [99, n], chunk_chapter = [], chunk_content = []\<rparr>"

definition ex_pipeline :: pipeline where
  "ex_pipeline = \<lparr>processed_chunks = {}, progress = Missing, store = empty_graph,
     extract_calls = [], results = []\<rparr>"

definition ex_resumed_pipeline :: pipeline where
  "ex_resumed_pipeline = \<lparr>processed_chunks = {}, progress = Saved {[99, 1], [99, 2]},
     store = ex_relation_graph, extract_calls = [], results = []\<rparr>"

definition ex_result :: ExtractionResult where
  "ex_result = \<lparr>res_persons = [ex_zhu], res_dynasties = [], res_events = [], res_places = [],
     res_relations = []\<rparr>"

definition ex_env :: run_env where
  "ex_env = \<lparr>extract_from_chunk = (\<lambda>i g c. Some ex_result),
     progress_write_ok = (\<lambda>sp. True), results_write_ok = (\<lambda>sp. True),
     graph_stats_ok = (\<lambda>sp. True), clear_database_ok = True, load_chunks_ok = True\<rparr>"

definition ex_stats_failing_env :: run_env where
  "ex_stats_failing_env = \<lparr>extract_from_chunk = (\<lambda>i g c. None),
     progress_write_ok = (\<lambda>sp. True), results_write_ok = (\<lambda>sp. True),
     graph_stats_ok = (\<lambda>sp. sp \<noteq> Periodic 10), clear_database_ok = True,
     load_chunks_ok = True\<rparr>"

definition ex_eleven_chunks :: "TextChunk list" where
  "ex_eleven_chunks = [ex_chunk 1, ex_chunk 2, ex_chunk 3, ex_chunk 4, ex_chunk 5, ex_chunk 6,
     ex_chunk 7, ex_chunk 8, ex_chunk 9, ex_chunk 10, ex_chunk 11]"

definition ex_straddle :: Event where
  "ex_straddle = \<lparr>event_uid = [101, 3], event_name = [23553, 66], event_year = Some 920,
     participants = [], event_description = [66, 36861]\<rparr>"

definition ex_edge_straddle :: edge where
  "ex_edge_straddle = \<lparr>edge_src = (PersonL, [112, 10]), edge_type = PARTICIPATED_IN,
     edge_dst = (EventL, [101, 3]), edge_description = None, edge_year = None,
     edge_role = Some DEFAULT_PARTICIPANT_ROLE\<rparr>"

definition ex_straddle_graph :: graph where
  "ex_straddle_graph = \<lparr>persons = [ex_li], dynasties = [], events = [ex_straddle],
     places = [], edges = [ex_edge_straddle]\<rparr>"

definition ex_year_zero :: Person where
  "ex_year_zero = \<lparr>uid = [112, 11], original_name = [76, 83], aliases = [],
     role = ROLE_OTHER, loyalty = [], birth_year = None, death_year = Some 0,
     death_cause = None, description = []\<rparr>"

definition ex_council :: Event where
  "ex_council = \<lparr>event_uid = [101, 4], event_name = [66, 68], event_year = Some 920,
     participants = [[76, 83]], event_description = [66, 66]\<rparr>"

definition ex_edge_council :: edge where
  "ex_edge_council = \<lparr>edge_src = (PersonL, [112, 11]), edge_type = PARTICIPATED_IN,
     edge_dst = (EventL, [101, 4]), edge_description = None, edge_year = None,
     edge_role = Some DEFAULT_PARTICIPANT_ROLE\<rparr>"

definition ex_year_zero_graph :: graph where
  "ex_year_zero_graph = \<lparr>persons = [ex_year_zero], dynasties = [], events = [ex_council],
     places = [], edges = [ex_edge_council]\<rparr>"

section \<open>Identity resolution: proofs\<close>

lemma find_person_in_store:
  "find_person_by_any_name g names f = Some e \<Longrightarrow> e \<in> set (persons g)"
  by (auto simp: find_person_by_any_name_def Let_def find_Some_iff
           split: if_splits option.splits)

lemma find_person_exact:
  "List.find (\<lambda>p. original_name p \<in> filter_ambiguous_names names) (persons g) = Some e
   \<Longrightarrow> find_person_by_any_name g names True = Some e"
proof -
  assume F: "List.find (\<lambda>p. original_name p \<in> filter_ambiguous_names names) (persons g) = Some e"
  then have m: "original_name e \<in> filter_ambiguous_names names"
    by (auto simp: find_Some_iff)
  then have "filter_ambiguous_names names \<noteq> {}" by blast
  moreover from m have "names \<noteq> {}" by (auto simp: filter_ambiguous_names_def)
  ultimately show ?thesis
    using F by (simp add: find_person_by_any_name_def)
qed

lemma find_person_filtered_empty:
  "filter_ambiguous_names names = {} \<Longrightarrow> find_person_by_any_name g names True = None"
  by (simp add: find_person_by_any_name_def)

lemma filter_ambiguous_titles_empty:
  "names \<subseteq> AMBIGUOUS_TITLES \<Longrightarrow> filter_ambiguous_names names = {}"
  by (auto simp: filter_ambiguous_names_def)

lemma merge_person_snd:
  "find_person_by_any_name g (all_names p) True = Some r \<Longrightarrow>
   snd (merge_person g p) = (if 25 < card (new_aliases r p) then uid p else uid r)"
  by (simp add: merge_person_def)

lemma merge_person_no_match:
  "find_person_by_any_name g (all_names p) True = None \<Longrightarrow>
   merge_person g p = (upsert_person g p, uid p)"
  by (simp add: merge_person_def)

text \<open>
  Claim C2 (identity by exact name, priority of the exact match), as the code has it. When a
  name of the candidate that survives the filter (not empty, not a blacklisted title, not a
  single character) is the \<open>original_name\<close> of a stored node, the lookup returns the first
  stored node whose \<open>original_name\<close> is one of the candidate's filtered names, whatever
  nodes match by alias, and \<open>merge_person\<close> returns that node's uid unless the proposed
  alias set exceeds 25, in which case it returns the candidate's uid. When only one stored
  node has such a name, it is that node.
\<close>

theorem merge_person_exact_name_identity:
  assumes "e \<in> set (persons g)"
      and "original_name e \<in> filter_ambiguous_names (all_names person)"
  shows "\<exists>r. find_person_by_any_name g (all_names person) True = Some r
           \<and> List.find (\<lambda>p. original_name p \<in> filter_ambiguous_names (all_names person))
                 (persons g) = Some r
           \<and> r \<in> set (persons g)
           \<and> original_name r \<in> filter_ambiguous_names (all_names person)
           \<and> snd (merge_person g person) =
                (if 25 < card (new_aliases r person) then uid person else uid r)
           \<and> ((\<forall>n \<in> set (persons g).
                  original_name n \<in> filter_ambiguous_names (all_names person) \<longrightarrow> n = e)
                \<longrightarrow> r = e)"
proof -
  let ?F = "filter_ambiguous_names (all_names person)"
  from assms have "List.find (\<lambda>p. original_name p \<in> ?F) (persons g) \<noteq> None"
    by (auto simp: find_None_iff)
  then obtain r where r: "List.find (\<lambda>p. original_name p \<in> ?F) (persons g) = Some r"
    by blast
  then have rin: "r \<in> set (persons g)" and rF: "original_name r \<in> ?F"
    by (auto simp: find_Some_iff)
  have f: "find_person_by_any_name g (all_names person) True = Some r"
    using r by (rule find_person_exact)
  show ?thesis
    using r rin rF f merge_person_snd[OF f] by blast
qed

lemma upsert_person_has_node:
  "\<exists>n \<in> set (persons (upsert_person g p)).
      uid n = uid p \<and> original_name n = original_name p \<and> aliases n = aliases p"
proof (cases "\<exists>n \<in> set (persons g). uid n = uid p")
  case True
  then obtain n where n: "n \<in> set (persons g)" "uid n = uid p" by blast
  then have "set_props p n \<in> set (persons (upsert_person g p))"
    using True by (force simp: upsert_person_def)
  then show ?thesis
    by (intro bexI[of _ "set_props p n"]) (simp_all add: set_props_def n)
next
  case False
  then show ?thesis by (simp add: upsert_person_def)
qed

lemma upsert_person_keeps_other:
  "n \<in> set (persons g) \<Longrightarrow> uid n \<noteq> uid p \<Longrightarrow> n \<in> set (persons (upsert_person g p))"
  by (force simp: upsert_person_def)

text \<open>
  Candidates known only by blacklisted titles, when their uids differ. Neither lookup finds
  a node in any store, each call returns its candidate's uid, and after both calls the store
  holds a node for each candidate with that candidate's name and aliases. The blacklisted
  name takes no part in matching and the empty filtered set leads to the creating branch;
  that the two nodes are distinct rests on the uids being different, which the code does not
  ensure: see the theorem below.
\<close>

lemma ambiguous_only_candidates_distinct:
  assumes "all_names p1 \<subseteq> AMBIGUOUS_TITLES" and "all_names p2 \<subseteq> AMBIGUOUS_TITLES"
      and "uid p1 \<noteq> uid p2"
  shows "find_person_by_any_name g (all_names p1) True = None
       \<and> find_person_by_any_name (fst (merge_person g p1)) (all_names p2) True = None
       \<and> snd (merge_person g p1) = uid p1
       \<and> snd (merge_person (fst (merge_person g p1)) p2) = uid p2
       \<and> snd (merge_person g p1) \<noteq> snd (merge_person (fst (merge_person g p1)) p2)
       \<and> (\<exists>n1 \<in> set (persons (fst (merge_person (fst (merge_person g p1)) p2))).
             uid n1 = uid p1 \<and> original_name n1 = original_name p1 \<and> aliases n1 = aliases p1)
       \<and> (\<exists>n2 \<in> set (persons (fst (merge_person (fst (merge_person g p1)) p2))).
             uid n2 = uid p2 \<and> original_name n2 = original_name p2 \<and> aliases n2 = aliases p2)"
proof -
  have f1: "\<And>g'. find_person_by_any_name g' (all_names p1) True = None"
    using assms(1) by (simp add: find_person_filtered_empty filter_ambiguous_titles_empty)
  have f2: "\<And>g'. find_person_by_any_name g' (all_names p2) True = None"
    using assms(2) by (simp add: find_person_filtered_empty filter_ambiguous_titles_empty)
  have m1: "merge_person g p1 = (upsert_person g p1, uid p1)"
    by (rule merge_person_no_match[OF f1])
  have m2: "merge_person (upsert_person g p1) p2 = (upsert_person (upsert_person g p1) p2, uid p2)"
    by (rule merge_person_no_match[OF f2])
  obtain n1 where n1: "n1 \<in> set (persons (upsert_person g p1))" "uid n1 = uid p1"
      "original_name n1 = original_name p1" "aliases n1 = aliases p1"
    using upsert_person_has_node[of g p1] by blast
  have "n1 \<in> set (persons (upsert_person (upsert_person g p1) p2))"
    using n1 assms(3) upsert_person_keeps_other[of n1 "upsert_person g p1" p2] by simp
  with n1 have e1: "\<exists>n1 \<in> set (persons (upsert_person (upsert_person g p1) p2)).
             uid n1 = uid p1 \<and> original_name n1 = original_name p1 \<and> aliases n1 = aliases p1"
    by blast
  show ?thesis
    using f1 f2 assms(3) e1 upsert_person_has_node[of "upsert_person g p1" p2]
    by (simp add: m1 m2)
qed

lemma uid_set_props: "uid (set_props p n) = uid n"
  by (simp add: set_props_def)

lemma uid_merge_update: "uid (merge_update e p n) = uid n"
  by (simp add: merge_update_def)

lemma distinct_uid_eq:
  "distinct (map uid xs) \<Longrightarrow> a \<in> set xs \<Longrightarrow> b \<in> set xs \<Longrightarrow> uid a = uid b \<Longrightarrow> a = b"
  by (auto simp: distinct_map dest: inj_onD)

lemma scalars_kept_refl: "scalars_kept n n"
  by (simp add: scalars_kept_def)

lemma scalars_kept_trans: "scalars_kept a b \<Longrightarrow> scalars_kept b c \<Longrightarrow> scalars_kept a c"
  by (auto simp: scalars_kept_def)

lemma scalars_kept_merge_update: "scalars_kept e (merge_update e p e)"
  by (simp add: scalars_kept_def merge_update_def)

lemma upsert_person_uids:
  "distinct (map uid (persons g)) \<Longrightarrow> distinct (map uid (persons (upsert_person g p)))"
proof (cases "\<exists>n \<in> set (persons g). uid n = uid p")
  case True
  assume d: "distinct (map uid (persons g))"
  have "map uid (map (\<lambda>n. if uid n = uid p then set_props p n else n) (persons g))
        = map uid (persons g)"
    by (simp add: uid_set_props cong: if_cong)
  with d True show ?thesis by (simp add: upsert_person_def del: map_map)
next
  case False
  assume d: "distinct (map uid (persons g))"
  from False have "uid p \<notin> uid ` set (persons g)" by auto
  with d False show ?thesis by (simp add: upsert_person_def)
qed

lemma upsert_person_nth:
  assumes "i < length (persons g)" and "uid p \<noteq> uid (persons g ! i)"
  shows "i < length (persons (upsert_person g p)) \<and> persons (upsert_person g p) ! i = persons g ! i"
  using assms by (auto simp: upsert_person_def nth_append)

lemma merge_branch_step:
  assumes f: "find_person_by_any_name g (all_names p) True = Some e"
      and c: "\<not> 25 < card (new_aliases e p)"
      and d: "distinct (map uid (persons g))" and i: "i < length (persons g)"
  shows "distinct (map uid (persons (fst (merge_person g p))))
       \<and> i < length (persons (fst (merge_person g p)))
       \<and> scalars_kept (persons g ! i) (persons (fst (merge_person g p)) ! i)"
proof -
  have mp: "persons (fst (merge_person g p)) =
      map (\<lambda>n. if uid n = uid e then merge_update e p n else n) (persons g)"
    using f c by (simp add: merge_person_def)
  have "map uid (map (\<lambda>n. if uid n = uid e then merge_update e p n else n) (persons g))
        = map uid (persons g)"
    by (simp add: uid_merge_update cong: if_cong)
  then have d': "distinct (map uid (persons (fst (merge_person g p))))"
    using d by (simp add: mp del: map_map)
  have ein: "e \<in> set (persons g)" using f by (rule find_person_in_store)
  have "scalars_kept (persons g ! i) (persons (fst (merge_person g p)) ! i)"
  proof (cases "uid (persons g ! i) = uid e")
    case True
    have "persons g ! i = e"
      using d ein i True by (intro distinct_uid_eq[of "persons g"]) simp_all
    then show ?thesis using i by (simp add: mp scalars_kept_merge_update)
  next
    case False
    then show ?thesis using i by (simp add: mp scalars_kept_refl)
  qed
  with d' i show ?thesis by (simp add: mp)
qed

lemma create_branch_step:
  assumes m: "merge_person g p = (upsert_person g p, uid p)"
      and u: "uid p \<noteq> uid (persons g ! i)"
      and d: "distinct (map uid (persons g))" and i: "i < length (persons g)"
  shows "distinct (map uid (persons (fst (merge_person g p))))
       \<and> i < length (persons (fst (merge_person g p)))
       \<and> scalars_kept (persons g ! i) (persons (fst (merge_person g p)) ! i)"
  using upsert_person_uids[OF d, of p] upsert_person_nth[OF i u]
  by (simp add: m scalars_kept_refl)

lemma merge_person_step:
  assumes u: "uid p \<noteq> uid (persons g ! i)"
      and d: "distinct (map uid (persons g))" and i: "i < length (persons g)"
  shows "distinct (map uid (persons (fst (merge_person g p))))
       \<and> i < length (persons (fst (merge_person g p)))
       \<and> scalars_kept (persons g ! i) (persons (fst (merge_person g p)) ! i)"
proof (cases "find_person_by_any_name g (all_names p) True")
  case None
  then have "merge_person g p = (upsert_person g p, uid p)" by (rule merge_person_no_match)
  then show ?thesis using u d i by (rule create_branch_step)
next
  case (Some e)
  show ?thesis
  proof (cases "25 < card (new_aliases e p)")
    case True
    with Some have "merge_person g p = (upsert_person g p, uid p)"
      by (simp add: merge_person_def)
    then show ?thesis using u d i by (rule create_branch_step)
  next
    case False
    with Some show ?thesis using d i by (intro merge_branch_step)
  qed
qed

lemma merge_person_sequence:
  assumes "distinct (map uid (persons g))" and "i < length (persons g)"
      and "\<forall>p \<in> set ps. uid p \<noteq> uid (persons g ! i)"
  shows "distinct (map uid (persons (fold (\<lambda>p g. fst (merge_person g p)) ps g)))
       \<and> i < length (persons (fold (\<lambda>p g. fst (merge_person g p)) ps g))
       \<and> scalars_kept (persons g ! i) (persons (fold (\<lambda>p g. fst (merge_person g p)) ps g) ! i)"
  using assms
proof (induction ps arbitrary: g)
  case Nil
  then show ?case by (simp add: scalars_kept_refl)
next
  case (Cons p ps)
  let ?g1 = "fst (merge_person g p)"
  from Cons.prems have u: "uid p \<noteq> uid (persons g ! i)" by simp
  have s: "distinct (map uid (persons ?g1)) \<and> i < length (persons ?g1)
           \<and> scalars_kept (persons g ! i) (persons ?g1 ! i)"
    using u Cons.prems(1,2) by (rule merge_person_step)
  then have same: "uid (persons ?g1 ! i) = uid (persons g ! i)"
    by (simp add: scalars_kept_def)
  have "distinct (map uid (persons (fold (\<lambda>p g. fst (merge_person g p)) ps ?g1)))
       \<and> i < length (persons (fold (\<lambda>p g. fst (merge_person g p)) ps ?g1))
       \<and> scalars_kept (persons ?g1 ! i) (persons (fold (\<lambda>p g. fst (merge_person g p)) ps ?g1) ! i)"
    using s Cons.prems(3) same by (intro Cons.IH) simp_all
  with s show ?case by (auto intro: scalars_kept_trans)
qed

text \<open>
  Scalar fill-in away from a clash of uids. In a store with unique uids, take the node at
  position \<open>i\<close>. Through any sequence of \<open>merge_person\<close> calls whose candidates all have
  another uid than that node, the node keeps its uid and every populated scalar: a birth or
  death year that is present and not 0, a cause of death that is present and not empty, a
  role that is neither empty nor the default. The same holds for one call that takes the
  merging branch, whatever the candidate's uid. The creating branch with the uid of a stored
  node is the subject of the theorem below.
\<close>

lemma scalar_fill_in_monotonic:
  assumes "distinct (map uid (persons g))" and "i < length (persons g)"
  shows "((\<forall>p \<in> set ps. uid p \<noteq> uid (persons g ! i)) \<longrightarrow>
            i < length (persons (fold (\<lambda>p g. fst (merge_person g p)) ps g))
          \<and> scalars_kept (persons g ! i)
                (persons (fold (\<lambda>p g. fst (merge_person g p)) ps g) ! i))
       \<and> (\<forall>e. find_person_by_any_name g (all_names person) True = Some e
               \<and> \<not> 25 < card (new_aliases e person) \<longrightarrow>
            i < length (persons (fst (merge_person g person)))
          \<and> scalars_kept (persons g ! i) (persons (fst (merge_person g person)) ! i))"
  using merge_person_sequence[OF assms, of ps] merge_branch_step[OF _ _ assms, of person]
  by blast

lemma finite_all_names: "finite (all_names p)"
  by (simp add: all_names_def)

lemma finite_new_aliases: "finite (new_aliases e p)"
  by (simp add: new_aliases_def existing_aliases_def finite_all_names)

lemma set_sorted_new_aliases:
  "set (sorted_list_of_set (new_aliases e p)) = new_aliases e p"
  by (simp add: finite_new_aliases)

lemma upsert_person_fresh:
  "uid p \<notin> uid ` set (persons g) \<Longrightarrow> upsert_person g p = g\<lparr>persons := persons g @ [p]\<rparr>"
proof -
  assume "uid p \<notin> uid ` set (persons g)"
  then have "\<not> (\<exists>n \<in> set (persons g). uid n = uid p)" by (metis imageI)
  then show ?thesis by (simp add: upsert_person_def)
qed

text \<open>
  The pollution guard away from a clash of uids. When \<open>merge_person\<close> finds an existing
  node, the proposed alias set is the union of the node's aliases, its \<open>original_name\<close>
  and the candidate's unfiltered names, minus the node's \<open>original_name\<close> and the empty
  string. If it has more than 25 elements and no stored person has the candidate's uid, the
  store only gains the candidate as a new node and the candidate's uid is returned. If it
  has at most 25 elements, the found node's uid is returned, no node is created, the
  \<open>SET\<close> clause of the merge is applied to the node of that uid, and the alias set stored
  there is exactly the proposed set, which contains the node's former aliases and the
  candidate's names, the node's \<open>original_name\<close> and the empty string apart. The case
  left out, more than 25 elements with the candidate's uid already stored, is the subject
  of the theorem below.
\<close>

lemma merge_person_pollution_guard:
  assumes "find_person_by_any_name g (all_names person) True = Some existing"
  shows "new_aliases existing person =
           ((set (aliases existing) \<union> {original_name existing} \<union> all_names person)
              - {original_name existing}) - {[]}
       \<and> (25 < card (new_aliases existing person) \<and> uid person \<notin> uid ` set (persons g) \<longrightarrow>
            merge_person g person = (g\<lparr>persons := persons g @ [person]\<rparr>, uid person))
       \<and> (\<not> 25 < card (new_aliases existing person) \<longrightarrow>
            snd (merge_person g person) = uid existing
          \<and> persons (fst (merge_person g person)) =
              map (\<lambda>n. if uid n = uid existing then merge_update existing person n else n) (persons g)
          \<and> map uid (persons (fst (merge_person g person))) = map uid (persons g)
          \<and> (\<exists>n' \<in> set (persons (fst (merge_person g person))). uid n' = uid existing)
          \<and> (\<forall>n' \<in> set (persons (fst (merge_person g person))). uid n' = uid existing \<longrightarrow>
                set (aliases n') = new_aliases existing person
              \<and> set (aliases existing) - {original_name existing, []} \<subseteq> set (aliases n')
              \<and> all_names person - {original_name existing} \<subseteq> set (aliases n')))"
proof (intro conjI impI)
  show "new_aliases existing person =
           ((set (aliases existing) \<union> {original_name existing} \<union> all_names person)
              - {original_name existing}) - {[]}"
    by (auto simp: new_aliases_def existing_aliases_def)
next
  assume "25 < card (new_aliases existing person) \<and> uid person \<notin> uid ` set (persons g)"
  then show "merge_person g person = (g\<lparr>persons := persons g @ [person]\<rparr>, uid person)"
    using assms by (simp add: merge_person_def upsert_person_fresh)
next
  assume le: "\<not> 25 < card (new_aliases existing person)"
  let ?g' = "fst (merge_person g person)"
  have mp: "merge_person g person =
      (g\<lparr>persons := map (\<lambda>n. if uid n = uid existing then merge_update existing person n else n)
          (persons g)\<rparr>, uid existing)"
    using assms le by (simp add: merge_person_def)
  show "snd (merge_person g person) = uid existing" by (simp add: mp)
  show ps: "persons ?g' =
      map (\<lambda>n. if uid n = uid existing then merge_update existing person n else n) (persons g)"
    by (simp add: mp)
  have uid_mu: "\<And>n. uid (merge_update existing person n) = uid n"
    by (simp add: merge_update_def)
  show "map uid (persons ?g') = map uid (persons g)"
    by (simp add: ps uid_mu cong: map_cong)
  have "existing \<in> set (persons g)" using assms by (rule find_person_in_store)
  then have "merge_update existing person existing \<in> set (persons ?g')"
    unfolding ps by force
  then show "\<exists>n' \<in> set (persons ?g'). uid n' = uid existing"
    using uid_mu by blast
  show "\<forall>n' \<in> set (persons ?g'). uid n' = uid existing \<longrightarrow>
                set (aliases n') = new_aliases existing person
              \<and> set (aliases existing) - {original_name existing, []} \<subseteq> set (aliases n')
              \<and> all_names person - {original_name existing} \<subseteq> set (aliases n')"
  proof (intro ballI impI)
    fix n' assume n': "n' \<in> set (persons ?g')" and u: "uid n' = uid existing"
    from n' obtain n where "n \<in> set (persons g)"
      and n'_eq: "n' = (if uid n = uid existing then merge_update existing person n else n)"
      unfolding ps by auto
    with u have "n' = merge_update existing person n" by (auto split: if_splits)
    then have al: "set (aliases n') = new_aliases existing person"
      by (simp add: merge_update_def set_sorted_new_aliases)
    moreover have "set (aliases existing) - {original_name existing, []} \<subseteq> new_aliases existing person"
      by (auto simp: new_aliases_def existing_aliases_def)
    moreover have "all_names person - {original_name existing} \<subseteq> new_aliases existing person"
      by (auto simp: new_aliases_def existing_aliases_def all_names_def)
    ultimately show "set (aliases n') = new_aliases existing person
              \<and> set (aliases existing) - {original_name existing, []} \<subseteq> set (aliases n')
              \<and> all_names person - {original_name existing} \<subseteq> set (aliases n')"
      by simp
  qed
qed




lemma ex_crowded_names:
  "[65, 66] \<in> filter_ambiguous_names (all_names ex_same_uid)"
  "[65, 66] \<in> filter_ambiguous_names (all_names ex_fresh_uid)"
  by (simp_all add: filter_ambiguous_names_def all_names_def ex_same_uid_def ex_fresh_uid_def
        AMBIGUOUS_TITLES_def)

lemma ex_crowded_found:
  "find_person_by_any_name ex_crowded_graph (all_names ex_same_uid) True = Some ex_crowded"
  "find_person_by_any_name ex_crowded_graph (all_names ex_fresh_uid) True = Some ex_crowded"
  by (rule find_person_exact, simp add: ex_crowded_graph_def, simp add: ex_crowded_def ex_crowded_names)+

lemma ex_crowded_card:
  "card (new_aliases ex_crowded ex_same_uid) = 26"
  "card (new_aliases ex_crowded ex_fresh_uid) = 26"
  by (simp_all add: new_aliases_def existing_aliases_def all_names_def ex_crowded_def
        ex_same_uid_def ex_fresh_uid_def)

text \<open>
  Claim C1 (pollution guard, union or abort: over the ceiling the existing node is left
  entirely unchanged and a brand-new node is created for the candidate) against the code at
  a concrete call. The store holds one node with 25 aliases; the candidate has the same
  \<open>original_name\<close>, the same uid, as the extractor gives it to a person of the same name,
  and one alias more. The lookup finds the node and the proposed alias set has 26 elements,
  so the guard fires. Its branch is commented "keep the existing aliases" and "create a new
  node", but it is a \<open>MERGE\<close> on the candidate's uid followed by \<open>SET p += props\<close>:
  the matched node is overwritten with the candidate's properties, its 25 aliases are
  replaced by the candidate's one, and no node is created.
\<close>

theorem pollution_guard_overwrites_matched_node:
  "find_person_by_any_name ex_crowded_graph (all_names ex_same_uid) True = Some ex_crowded
   \<and> 25 < card (new_aliases ex_crowded ex_same_uid)
   \<and> persons ex_crowded_graph = [ex_crowded]
   \<and> persons (fst (merge_person ex_crowded_graph ex_same_uid)) = [ex_same_uid]
   \<and> ex_same_uid \<noteq> ex_crowded
   \<and> length (aliases ex_crowded) = 25 \<and> aliases ex_same_uid = [[66, 26]]
   \<and> snd (merge_person ex_crowded_graph ex_same_uid) = uid ex_crowded"
proof -
  have "merge_person ex_crowded_graph ex_same_uid = (upsert_person ex_crowded_graph ex_same_uid, uid ex_same_uid)"
    by (simp add: merge_person_def ex_crowded_found ex_crowded_card)
  moreover have "persons (upsert_person ex_crowded_graph ex_same_uid) = [ex_same_uid]"
    by (simp add: upsert_person_def ex_crowded_graph_def ex_crowded_def ex_same_uid_def set_props_def)
  moreover have "ex_same_uid \<noteq> ex_crowded"
    by (simp add: ex_crowded_def ex_same_uid_def)
  moreover have "persons ex_crowded_graph = [ex_crowded]"
    by (simp add: ex_crowded_graph_def)
  moreover have "25 < card (new_aliases ex_crowded ex_same_uid)"
    by (simp add: ex_crowded_card)
  moreover have "length (aliases ex_crowded) = 25" "aliases ex_same_uid = [[66, 26]]"
      "uid ex_same_uid = uid ex_crowded"
    by (simp_all add: ex_crowded_def ex_same_uid_def)
  ultimately show ?thesis
    using ex_crowded_found(1) by simp
qed

lemma ex_zhu_found:
  "find_person_by_any_name ex_zhu_graph (all_names ex_zhu_again) True = Some ex_zhu"
  by (rule find_person_exact)
     (simp add: ex_zhu_graph_def ex_zhu_def filter_ambiguous_names_def all_names_def
        ex_zhu_again_def AMBIGUOUS_TITLES_def)

lemma ex_zhu_new_aliases:
  "new_aliases ex_zhu ex_zhu_again = {[90, 81], [90, 72]}"
  by (auto simp: new_aliases_def existing_aliases_def all_names_def ex_zhu_def ex_zhu_again_def)

text \<open>
  Both branches of the pollution guard at concrete inputs: a candidate with a fresh uid that
  would bring a node to 26 aliases, and a candidate that brings a node to two.
\<close>

lemma merge_person_pollution_guard_example:
  "merge_person ex_crowded_graph ex_fresh_uid =
     (ex_crowded_graph\<lparr>persons := persons ex_crowded_graph @ [ex_fresh_uid]\<rparr>, uid ex_fresh_uid)
   \<and> snd (merge_person ex_zhu_graph ex_zhu_again) = uid ex_zhu
   \<and> map uid (persons (fst (merge_person ex_zhu_graph ex_zhu_again))) = map uid (persons ex_zhu_graph)"
proof -
  have fresh: "uid ex_fresh_uid \<notin> uid ` set (persons ex_crowded_graph)"
    by (simp add: ex_fresh_uid_def ex_crowded_graph_def ex_crowded_def)
  have small: "\<not> 25 < card (new_aliases ex_zhu ex_zhu_again)"
    by (simp add: ex_zhu_new_aliases)
  have big: "25 < card (new_aliases ex_crowded ex_fresh_uid)"
    by (simp add: ex_crowded_card)
  have over: "merge_person ex_crowded_graph ex_fresh_uid =
     (ex_crowded_graph\<lparr>persons := persons ex_crowded_graph @ [ex_fresh_uid]\<rparr>, uid ex_fresh_uid)"
    using merge_person_pollution_guard[OF ex_crowded_found(2)] fresh big by blast
  have under: "snd (merge_person ex_zhu_graph ex_zhu_again) = uid ex_zhu
      \<and> map uid (persons (fst (merge_person ex_zhu_graph ex_zhu_again))) = map uid (persons ex_zhu_graph)"
    using merge_person_pollution_guard[OF ex_zhu_found] small by blast
  from over under show ?thesis by blast
qed

lemma ex_zhu_again_filtered:
  "filter_ambiguous_names (all_names ex_zhu_again) = {[90, 87], [90, 81], [90, 72]}"
  by (auto simp: filter_ambiguous_names_def all_names_def ex_zhu_again_def AMBIGUOUS_TITLES_def)

text \<open>
  The exact match wins over an alias match that comes first in the store.
\<close>

theorem merge_person_exact_name_identity_witness:
  "find_person_by_any_name ex_priority_graph (all_names ex_zhu_again) True = Some ex_zhu
   \<and> snd (merge_person ex_priority_graph ex_zhu_again) = uid ex_zhu"
proof -
  have h1: "ex_zhu \<in> set (persons ex_priority_graph)"
    by (simp add: ex_priority_graph_def)
  have h2: "original_name ex_zhu \<in> filter_ambiguous_names (all_names ex_zhu_again)"
    by (simp add: ex_zhu_again_filtered ex_zhu_def)
  have only: "\<forall>n \<in> set (persons ex_priority_graph).
      original_name n \<in> filter_ambiguous_names (all_names ex_zhu_again) \<longrightarrow> n = ex_zhu"
    by (simp add: ex_zhu_again_filtered ex_priority_graph_def ex_alias_holder_def)
  have small: "\<not> 25 < card (new_aliases ex_zhu ex_zhu_again)"
    by (simp add: ex_zhu_new_aliases)
  from merge_person_exact_name_identity[OF h1 h2] only
  have "find_person_by_any_name ex_priority_graph (all_names ex_zhu_again) True = Some ex_zhu
      \<and> snd (merge_person ex_priority_graph ex_zhu_again) =
          (if 25 < card (new_aliases ex_zhu ex_zhu_again) then uid ex_zhu_again else uid ex_zhu)"
    by blast
  with small show ?thesis by simp
qed

lemma upsert_person_single:
  "persons g = [n] \<Longrightarrow> uid n = uid p \<Longrightarrow> persons (upsert_person g p) = [set_props p n]"
  by (simp add: upsert_person_def)

lemma ex_title_names:
  "all_names ex_title_node = {[22826, 23447]}"
  "all_names ex_title_candidate = {[22826, 23447]}"
  "all_names ex_title_twin = {[22826, 23447]}"
  by (auto simp: all_names_def ex_title_node_def ex_title_candidate_def ex_title_twin_def)

lemma taizong_ambiguous: "[22826, 23447] \<in> AMBIGUOUS_TITLES"
  by (simp add: AMBIGUOUS_TITLES_def)

text \<open>
  Claim C2 as stated fails for a blacklisted name: the candidate's whole name set is the
  \<open>original_name\<close> of a stored node, a blacklisted title, and \<open>merge_person\<close> returns the
  candidate's own uid, not the node's.
\<close>

theorem merge_person_exact_name_identity_counterexample:
  "ex_title_node \<in> set (persons ex_title_graph)
   \<and> all_names ex_title_candidate = {original_name ex_title_node}
   \<and> snd (merge_person ex_title_graph ex_title_candidate) = uid ex_title_candidate
   \<and> uid ex_title_candidate \<noteq> uid ex_title_node"
proof -
  have "find_person_by_any_name ex_title_graph (all_names ex_title_candidate) True = None"
    by (rule find_person_filtered_empty, rule filter_ambiguous_titles_empty)
       (simp add: ex_title_names taizong_ambiguous)
  then have "snd (merge_person ex_title_graph ex_title_candidate) = uid ex_title_candidate"
    by (simp add: merge_person_no_match)
  moreover have "all_names ex_title_candidate = {original_name ex_title_node}"
    by (simp add: ex_title_names ex_title_node_def)
  moreover have "uid ex_title_candidate \<noteq> uid ex_title_node"
    by (simp add: ex_title_candidate_def ex_title_node_def)
  moreover have "ex_title_node \<in> set (persons ex_title_graph)"
    by (simp add: ex_title_graph_def)
  ultimately show ?thesis by blast
qed

text \<open>
  Claim C3 (two candidates that share only a blacklisted title resolve to two distinct
  canonical nodes) against the code at a concrete input. Both candidates are named only by
  the first title of \<open>AMBIGUOUS_TITLES\<close> and carry the same uid, as the extractor derives
  the uid from the name; they differ in their description. Neither call matches anything,
  both take the creating branch, and the branch is a \<open>MERGE\<close> on the uid: the second call
  overwrites the node of the first. Both calls return the same uid and the store holds one
  node, the second candidate.
\<close>

theorem same_uid_title_candidates_collapse:
  "all_names ex_title_node = {[22826, 23447]}
   \<and> all_names ex_title_twin = {[22826, 23447]}
   \<and> [22826, 23447] \<in> AMBIGUOUS_TITLES
   \<and> ex_title_node \<noteq> ex_title_twin
   \<and> snd (merge_person empty_graph ex_title_node)
       = snd (merge_person (fst (merge_person empty_graph ex_title_node)) ex_title_twin)
   \<and> persons (fst (merge_person (fst (merge_person empty_graph ex_title_node)) ex_title_twin))
       = [ex_title_twin]"
proof -
  have n1: "\<And>g. find_person_by_any_name g (all_names ex_title_node) True = None"
    by (rule find_person_filtered_empty, rule filter_ambiguous_titles_empty)
       (simp add: ex_title_names taizong_ambiguous)
  have n2: "\<And>g. find_person_by_any_name g (all_names ex_title_twin) True = None"
    by (rule find_person_filtered_empty, rule filter_ambiguous_titles_empty)
       (simp add: ex_title_names taizong_ambiguous)
  have m1: "merge_person empty_graph ex_title_node = (upsert_person empty_graph ex_title_node, uid ex_title_node)"
    by (rule merge_person_no_match[OF n1])
  have m2: "merge_person (upsert_person empty_graph ex_title_node) ex_title_twin
      = (upsert_person (upsert_person empty_graph ex_title_node) ex_title_twin, uid ex_title_twin)"
    by (rule merge_person_no_match[OF n2])
  have u1: "persons (upsert_person empty_graph ex_title_node) = [ex_title_node]"
    by (simp add: upsert_person_def empty_graph_def)
  have u2: "persons (upsert_person (upsert_person empty_graph ex_title_node) ex_title_twin) = [ex_title_twin]"
  proof -
    have "uid ex_title_node = uid ex_title_twin"
      by (simp add: ex_title_node_def ex_title_twin_def)
    from upsert_person_single[OF u1 this]
    show ?thesis by (simp add: ex_title_node_def ex_title_twin_def set_props_def)
  qed
  have "uid ex_title_node = uid ex_title_twin" "ex_title_node \<noteq> ex_title_twin"
    by (simp_all add: ex_title_node_def ex_title_twin_def)
  then show ?thesis
    by (simp add: m1 m2 u2 ex_title_names taizong_ambiguous)
qed

text \<open>
  Two candidates named only by the same blacklisted title, with different uids.
\<close>

lemma ambiguous_only_candidates_distinct_example:
  "snd (merge_person empty_graph ex_title_node) = uid ex_title_node
   \<and> snd (merge_person (fst (merge_person empty_graph ex_title_node)) ex_title_candidate)
       = uid ex_title_candidate
   \<and> snd (merge_person empty_graph ex_title_node)
       \<noteq> snd (merge_person (fst (merge_person empty_graph ex_title_node)) ex_title_candidate)"
proof -
  have h1: "all_names ex_title_node \<subseteq> AMBIGUOUS_TITLES"
    by (simp add: ex_title_names taizong_ambiguous)
  have h2: "all_names ex_title_candidate \<subseteq> AMBIGUOUS_TITLES"
    by (simp add: ex_title_names taizong_ambiguous)
  have h3: "uid ex_title_node \<noteq> uid ex_title_candidate"
    by (simp add: ex_title_node_def ex_title_candidate_def)
  from ambiguous_only_candidates_distinct[OF h1 h2 h3, of empty_graph]
  show ?thesis by blast
qed

text \<open>
  Claim C4 (scalar fill-in is monotonic: a populated scalar is never changed by a later
  \<open>merge_person\<close> call) against the code at a concrete call. The stored node has death
  year 912 and a role; the candidate matches none of its names but carries its uid, with
  death year 900 and another role. No match is found, the creating branch runs, and its
  \<open>MERGE\<close> on the uid with \<open>SET p += props\<close> overwrites both populated fields of the
  stored node, where the merging branch would have kept them.
\<close>

theorem creating_branch_overwrites_scalars:
  "persons ex_dated_graph = [ex_dated]
   \<and> death_year ex_dated = Some 912 \<and> truthy_year (death_year ex_dated)
   \<and> role ex_dated = [69]
   \<and> map death_year (persons (fst (merge_person ex_dated_graph ex_overwriter))) = [Some 900]
   \<and> map role (persons (fst (merge_person ex_dated_graph ex_overwriter))) = [[71]]"
proof -
  have F: "filter_ambiguous_names (all_names ex_overwriter) = {[76, 75]}"
    by (auto simp: filter_ambiguous_names_def all_names_def ex_overwriter_def AMBIGUOUS_TITLES_def)
  have "find_person_by_any_name ex_dated_graph (all_names ex_overwriter) True = None"
    by (simp add: find_person_by_any_name_def F)
       (simp add: all_names_def ex_overwriter_def ex_dated_graph_def ex_dated_def)
  then have m: "merge_person ex_dated_graph ex_overwriter
      = (upsert_person ex_dated_graph ex_overwriter, uid ex_overwriter)"
    by (rule merge_person_no_match)
  have u: "persons (upsert_person ex_dated_graph ex_overwriter) = [set_props ex_overwriter ex_dated]"
    by (rule upsert_person_single)
       (simp_all add: ex_dated_graph_def ex_dated_def ex_overwriter_def)
  show ?thesis
    by (simp add: m u) (simp add: ex_dated_graph_def ex_dated_def ex_overwriter_def set_props_def truthy_year_def)
qed

text \<open>
  A node with death year 912 and a role keeps both when a candidate of another uid with
  death year 900 and another role is merged into it.
\<close>

lemma scalar_fill_in_monotonic_example:
  "death_year (persons (fold (\<lambda>p g. fst (merge_person g p)) [ex_dated_rival] ex_dated_graph) ! 0)
     = Some 912
   \<and> role (persons (fst (merge_person ex_dated_graph ex_dated_rival)) ! 0) = [69]"
proof -
  have h1: "distinct (map uid (persons ex_dated_graph))"
    by (simp add: ex_dated_graph_def)
  have h2: "0 < length (persons ex_dated_graph)"
    by (simp add: ex_dated_graph_def)
  have h3: "\<forall>p \<in> set [ex_dated_rival]. uid p \<noteq> uid (persons ex_dated_graph ! 0)"
    by (simp add: ex_dated_graph_def ex_dated_def ex_dated_rival_def)
  have F: "[90, 87] \<in> filter_ambiguous_names (all_names ex_dated_rival)"
    by (simp add: filter_ambiguous_names_def all_names_def ex_dated_rival_def AMBIGUOUS_TITLES_def)
  have f: "find_person_by_any_name ex_dated_graph (all_names ex_dated_rival) True = Some ex_dated"
    by (rule find_person_exact) (simp add: ex_dated_graph_def, simp add: ex_dated_def F)
  have c: "\<not> 25 < card (new_aliases ex_dated ex_dated_rival)"
    by (simp add: new_aliases_def existing_aliases_def all_names_def ex_dated_def ex_dated_rival_def)
  have n: "persons ex_dated_graph ! 0 = ex_dated"
    by (simp add: ex_dated_graph_def)
  have t: "truthy_year (death_year ex_dated)" "role ex_dated \<noteq> [] \<and> role ex_dated \<noteq> ROLE_OTHER"
      "death_year ex_dated = Some 912" "role ex_dated = [69]"
    by (simp_all add: ex_dated_def truthy_year_def ROLE_OTHER_def)
  from scalar_fill_in_monotonic[OF h1 h2, of "[ex_dated_rival]" ex_dated_rival] h3 f c
  have "scalars_kept (persons ex_dated_graph ! 0)
          (persons (fold (\<lambda>p g. fst (merge_person g p)) [ex_dated_rival] ex_dated_graph) ! 0)"
    and "scalars_kept (persons ex_dated_graph ! 0)
          (persons (fst (merge_person ex_dated_graph ex_dated_rival)) ! 0)"
    by blast+
  then show ?thesis
    unfolding n scalars_kept_def using t by simp
qed

subsection \<open>Candidates with further names\<close>

lemma find_person_none_iff:
  "find_person_by_any_name g names True = None \<longleftrightarrow>
     filter_ambiguous_names names = {}
     \<or> (\<forall>p \<in> set (persons g).
            insert (original_name p) (set (aliases p)) \<inter> filter_ambiguous_names names = {})"
proof (cases "filter_ambiguous_names names = {}")
  case True
  then show ?thesis by (simp add: find_person_filtered_empty)
next
  case False
  then have "names \<noteq> {}" by (auto simp: filter_ambiguous_names_def)
  with False have "find_person_by_any_name g names True =
      (case List.find (\<lambda>p. original_name p \<in> filter_ambiguous_names names) (persons g) of
         Some r \<Rightarrow> Some r
       | None \<Rightarrow> List.find (\<lambda>p. \<exists>alias \<in> set (aliases p). alias \<in> filter_ambiguous_names names)
                   (persons g))"
    by (simp add: find_person_by_any_name_def Let_def)
  then have "find_person_by_any_name g names True = None \<longleftrightarrow>
      List.find (\<lambda>p. original_name p \<in> filter_ambiguous_names names) (persons g) = None
      \<and> List.find (\<lambda>p. \<exists>alias \<in> set (aliases p). alias \<in> filter_ambiguous_names names)
            (persons g) = None"
    by (cases "List.find (\<lambda>p. original_name p \<in> filter_ambiguous_names names) (persons g)")
       simp_all
  also have "\<dots> \<longleftrightarrow> (\<forall>p \<in> set (persons g).
            insert (original_name p) (set (aliases p)) \<inter> filter_ambiguous_names names = {})"
    unfolding find_None_iff by auto
  finally show ?thesis using False by simp
qed

lemma all_names_filtered:
  "n \<in> filter_ambiguous_names names' \<Longrightarrow> n \<in> insert (original_name p) (set (aliases p))
   \<Longrightarrow> n \<in> filter_ambiguous_names (all_names p)"
  by (auto simp: filter_ambiguous_names_def all_names_def)

lemma new_aliases_subset:
  "new_aliases e p \<subseteq> set (aliases e) \<union> insert (original_name p) (set (aliases p))"
  by (auto simp: new_aliases_def existing_aliases_def all_names_def)

lemma merge_person_keeps_disjoint:
  assumes g: "\<forall>n \<in> set (persons g). insert (original_name n) (set (aliases n)) \<inter> F = {}"
      and p: "insert (original_name p) (set (aliases p)) \<inter> F = {}"
  shows "\<forall>n' \<in> set (persons (fst (merge_person g p))).
           insert (original_name n') (set (aliases n')) \<inter> F = {}"
proof
  fix n' assume n': "n' \<in> set (persons (fst (merge_person g p)))"
  have up: "n' \<in> set (persons (upsert_person g p)) \<Longrightarrow>
      insert (original_name n') (set (aliases n')) \<inter> F = {}"
  proof -
    assume "n' \<in> set (persons (upsert_person g p))"
    then have "n' \<in> set (persons g) \<or> n' = p \<or> (\<exists>n \<in> set (persons g). n' = set_props p n)"
      by (auto simp: upsert_person_def split: if_splits)
    then show ?thesis
      using g p by (auto simp: set_props_def)
  qed
  show "insert (original_name n') (set (aliases n')) \<inter> F = {}"
  proof (cases "find_person_by_any_name g (all_names p) True")
    case None
    with n' up show ?thesis by (simp add: merge_person_no_match)
  next
    case (Some e)
    show ?thesis
    proof (cases "25 < card (new_aliases e p)")
      case True
      with Some n' up show ?thesis by (simp add: merge_person_def)
    next
      case False
      have ein: "e \<in> set (persons g)" using Some by (rule find_person_in_store)
      from Some False n'
      have "n' \<in> set (persons g) \<or> (\<exists>n \<in> set (persons g). n' = merge_update e p n)"
        by (auto simp: merge_person_def split: if_splits)
      then show ?thesis
      proof
        assume "n' \<in> set (persons g)"
        with g show ?thesis by blast
      next
        assume "\<exists>n \<in> set (persons g). n' = merge_update e p n"
        then obtain n where n: "n \<in> set (persons g)" "n' = merge_update e p n" by blast
        have a: "set (aliases n') = new_aliases e p"
          by (simp add: n(2) merge_update_def set_sorted_new_aliases)
        have o: "original_name n' = original_name n"
          by (simp add: n(2) merge_update_def)
        have "insert (original_name n') (set (aliases n'))
             \<subseteq> (insert (original_name n) (set (aliases n)) \<union> insert (original_name e) (set (aliases e)))
                \<union> insert (original_name p) (set (aliases p))"
          unfolding a o using new_aliases_subset[of e p] by auto
        moreover have "insert (original_name n) (set (aliases n)) \<inter> F = {}"
          "insert (original_name e) (set (aliases e)) \<inter> F = {}"
          using g n(1) ein by blast+
        ultimately show ?thesis using p by blast
      qed
    qed
  qed
qed

lemma merge_person_uids:
  "n' \<in> set (persons (fst (merge_person g p))) \<Longrightarrow>
     uid n' = uid p \<or> (\<exists>n \<in> set (persons g). uid n' = uid n)"
  "snd (merge_person g p) = uid p \<or> (\<exists>n \<in> set (persons g). snd (merge_person g p) = uid n)"
proof -
  have up: "\<And>n'. n' \<in> set (persons (upsert_person g p)) \<Longrightarrow>
      uid n' = uid p \<or> (\<exists>n \<in> set (persons g). uid n' = uid n)"
    by (auto simp: upsert_person_def uid_set_props split: if_splits)
  show "n' \<in> set (persons (fst (merge_person g p))) \<Longrightarrow>
     uid n' = uid p \<or> (\<exists>n \<in> set (persons g). uid n' = uid n)"
  proof (cases "find_person_by_any_name g (all_names p) True")
    case None
    assume "n' \<in> set (persons (fst (merge_person g p)))"
    with None up show ?thesis by (simp add: merge_person_no_match)
  next
    case (Some e)
    assume n': "n' \<in> set (persons (fst (merge_person g p)))"
    show ?thesis
    proof (cases "25 < card (new_aliases e p)")
      case True
      with Some n' up show ?thesis by (simp add: merge_person_def)
    next
      case False
      with Some n' obtain n where "n \<in> set (persons g)"
        "n' = (if uid n = uid e then merge_update e p n else n)"
        by (auto simp: merge_person_def)
      then have "n \<in> set (persons g)" "uid n' = uid n"
        by (simp_all add: uid_merge_update)
      then show ?thesis by blast
    qed
  qed
  show "snd (merge_person g p) = uid p \<or> (\<exists>n \<in> set (persons g). snd (merge_person g p) = uid n)"
  proof (cases "find_person_by_any_name g (all_names p) True")
    case None
    then show ?thesis by (simp add: merge_person_no_match)
  next
    case (Some e)
    then have "e \<in> set (persons g)" by (rule find_person_in_store)
    with Some show ?thesis by (auto simp: merge_person_snd)
  qed
qed

text \<open>
  The same for candidates that have other names too: when no name that takes part in
  matching is common to the two candidates, and the second candidate matches no node of the
  store and carries a uid that is neither the first candidate's nor a stored one, then after
  the first candidate has been resolved the second still matches nothing and is created as a
  new node; the two calls return different uids.
\<close>

lemma shared_ambiguous_title_does_not_merge:
  assumes disjoint: "filter_ambiguous_names (all_names p1) \<inter> filter_ambiguous_names (all_names p2) = {}"
      and unknown: "find_person_by_any_name g (all_names p2) True = None"
      and fresh: "uid p2 \<noteq> uid p1" "\<forall>n \<in> set (persons g). uid n \<noteq> uid p2"
  shows "find_person_by_any_name (fst (merge_person g p1)) (all_names p2) True = None
       \<and> merge_person (fst (merge_person g p1)) p2
           = ((fst (merge_person g p1))\<lparr>persons := persons (fst (merge_person g p1)) @ [p2]\<rparr>, uid p2)
       \<and> snd (merge_person g p1) \<noteq> uid p2"
proof -
  let ?F = "filter_ambiguous_names (all_names p2)"
  let ?g1 = "fst (merge_person g p1)"
  have none1: "find_person_by_any_name ?g1 (all_names p2) True = None"
  proof (cases "?F = {}")
    case True
    then show ?thesis by (rule find_person_filtered_empty)
  next
    case False
    with unknown have g: "\<forall>n \<in> set (persons g). insert (original_name n) (set (aliases n)) \<inter> ?F = {}"
      by (simp add: find_person_none_iff)
    have p: "insert (original_name p1) (set (aliases p1)) \<inter> ?F = {}"
      using disjoint all_names_filtered[of _ "all_names p2" p1] by blast
    from merge_person_keeps_disjoint[OF g p]
    show ?thesis by (simp add: find_person_none_iff)
  qed
  have "\<forall>n' \<in> set (persons ?g1). uid n' \<noteq> uid p2"
    using fresh merge_person_uids(1)[of _ g p1] by metis
  then have fresh1: "uid p2 \<notin> uid ` set (persons ?g1)" by auto
  have "merge_person ?g1 p2 = (upsert_person ?g1 p2, uid p2)"
    using none1 by (rule merge_person_no_match)
  then have m: "merge_person ?g1 p2 = (?g1\<lparr>persons := persons ?g1 @ [p2]\<rparr>, uid p2)"
    by (simp add: upsert_person_fresh[OF fresh1])
  have "snd (merge_person g p1) \<noteq> uid p2"
    using fresh merge_person_uids(2)[of g p1] by metis
  with none1 m show ?thesis by simp
qed

section \<open>Relation resolution: proofs\<close>

lemma find_first_match:
  "\<exists>x \<in> set xs. P x \<Longrightarrow> \<exists>y \<in> set xs. P y \<and> List.find P xs = Some y"
  by (induction xs) auto

lemma find_no_match: "\<forall>x \<in> set xs. \<not> P x \<Longrightarrow> List.find P xs = None"
  by (simp add: find_None_iff)

lemma resolve_node_uid_person:
  assumes "name \<noteq> []" and "\<exists>p \<in> set (persons g). person_named name p"
  shows "\<exists>q \<in> set (persons g). person_named name q
           \<and> List.find (person_named name) (persons g) = Some q
           \<and> resolve_person_uid g name = Some (uid q)
           \<and> resolve_node_uid g name = Some (uid q)"
proof -
  from find_first_match[OF assms(2)] obtain q where q: "q \<in> set (persons g)"
    "person_named name q" "List.find (person_named name) (persons g) = Some q" by blast
  have e: "(\<lambda>p. original_name p = name \<or> name \<in> set (aliases p)) = person_named name"
    by (simp add: person_named_def fun_eq_iff)
  have "resolve_person_uid g name = Some (uid q)" "resolve_node_uid g name = Some (uid q)"
    using assms(1) q(3) by (simp_all add: resolve_person_uid_def resolve_node_uid_def e)
  with q show ?thesis by blast
qed

lemma resolve_node_uid_no_person:
  assumes "name \<noteq> []" and "\<forall>p \<in> set (persons g). \<not> person_named name p"
  shows "resolve_person_uid g name = None"
    and "resolve_node_uid g name =
         (case List.find (\<lambda>d. dynasty_name d = name) (dynasties g) of
            Some d \<Rightarrow> Some (dynasty_uid d)
          | None \<Rightarrow>
             (case List.find (\<lambda>e. event_name e = name) (events g) of
                Some e \<Rightarrow> Some (event_uid e)
              | None \<Rightarrow>
                 (case List.find (\<lambda>pl. place_name pl = name) (places g) of
                    Some pl \<Rightarrow> Some (place_uid pl)
                  | None \<Rightarrow> None)))"
proof -
  have e: "(\<lambda>p. original_name p = name \<or> name \<in> set (aliases p)) = person_named name"
    by (simp add: person_named_def fun_eq_iff)
  have n: "List.find (person_named name) (persons g) = None"
    using assms(2) by (simp add: find_None_iff)
  show "resolve_person_uid g name = None"
    using assms(1) n by (simp add: resolve_person_uid_def e)
  show "resolve_node_uid g name =
         (case List.find (\<lambda>d. dynasty_name d = name) (dynasties g) of
            Some d \<Rightarrow> Some (dynasty_uid d)
          | None \<Rightarrow>
             (case List.find (\<lambda>e. event_name e = name) (events g) of
                Some e \<Rightarrow> Some (event_uid e)
              | None \<Rightarrow>
                 (case List.find (\<lambda>pl. place_name pl = name) (places g) of
                    Some pl \<Rightarrow> Some (place_uid pl)
                  | None \<Rightarrow> None)))"
    using assms(1) n by (simp add: resolve_node_uid_def e)
qed

lemma create_relation_unresolved:
  "resolve_node_uid g (source relation) = None \<or> resolve_node_uid g (target relation) = None
   \<Longrightarrow> create_relation_by_name py_upper py_isalnum g relation = (g, False)"
  by (auto simp: create_relation_by_name_def Let_def)

text \<open>
  Claim C5 (order of endpoint resolution, failure creates nothing). For a non-empty name,
  \<open>resolve_node_uid\<close> answers with the uid of the first person carrying the name as
  \<open>original_name\<close> or alias when there is one; otherwise with the first dynasty of that
  name; otherwise with the first event of that name; otherwise with the first place of that
  name; otherwise with nothing. When the source name or the target name of a relation
  resolves to no uid, \<open>create_relation_by_name\<close> returns \<open>False\<close> and the graph is the
  one it was given: no edge, no node.
\<close>

theorem relation_endpoint_resolution:
  assumes "name \<noteq> []"
  shows "((\<exists>p \<in> set (persons g). person_named name p) \<longrightarrow>
            (\<exists>q \<in> set (persons g). person_named name q
               \<and> List.find (person_named name) (persons g) = Some q
               \<and> resolve_node_uid g name = Some (uid q)))
       \<and> ((\<forall>p \<in> set (persons g). \<not> person_named name p)
            \<and> (\<exists>d \<in> set (dynasties g). dynasty_name d = name) \<longrightarrow>
            (\<exists>d \<in> set (dynasties g). dynasty_name d = name
               \<and> List.find (\<lambda>d. dynasty_name d = name) (dynasties g) = Some d
               \<and> resolve_node_uid g name = Some (dynasty_uid d)))
       \<and> ((\<forall>p \<in> set (persons g). \<not> person_named name p)
            \<and> (\<forall>d \<in> set (dynasties g). dynasty_name d \<noteq> name)
            \<and> (\<exists>e \<in> set (events g). event_name e = name) \<longrightarrow>
            (\<exists>e \<in> set (events g). event_name e = name
               \<and> List.find (\<lambda>e. event_name e = name) (events g) = Some e
               \<and> resolve_node_uid g name = Some (event_uid e)))
       \<and> ((\<forall>p \<in> set (persons g). \<not> person_named name p)
            \<and> (\<forall>d \<in> set (dynasties g). dynasty_name d \<noteq> name)
            \<and> (\<forall>e \<in> set (events g). event_name e \<noteq> name)
            \<and> (\<exists>pl \<in> set (places g). place_name pl = name) \<longrightarrow>
            (\<exists>pl \<in> set (places g). place_name pl = name
               \<and> List.find (\<lambda>pl. place_name pl = name) (places g) = Some pl
               \<and> resolve_node_uid g name = Some (place_uid pl)))
       \<and> ((\<forall>p \<in> set (persons g). \<not> person_named name p)
            \<and> (\<forall>d \<in> set (dynasties g). dynasty_name d \<noteq> name)
            \<and> (\<forall>e \<in> set (events g). event_name e \<noteq> name)
            \<and> (\<forall>pl \<in> set (places g). place_name pl \<noteq> name) \<longrightarrow>
            resolve_node_uid g name = None)
       \<and> (\<forall>relation py_upper py_isalnum.
            resolve_node_uid g (source relation) = None
            \<or> resolve_node_uid g (target relation) = None \<longrightarrow>
            create_relation_by_name py_upper py_isalnum g relation = (g, False))"
proof (intro conjI impI allI)
  assume "\<exists>p \<in> set (persons g). person_named name p"
  from resolve_node_uid_person[OF assms this]
  show "\<exists>q \<in> set (persons g). person_named name q
               \<and> List.find (person_named name) (persons g) = Some q
               \<and> resolve_node_uid g name = Some (uid q)" by blast
next
  assume a: "(\<forall>p \<in> set (persons g). \<not> person_named name p)
            \<and> (\<exists>d \<in> set (dynasties g). dynasty_name d = name)"
  then obtain d where d: "d \<in> set (dynasties g)" "dynasty_name d = name"
    "List.find (\<lambda>d. dynasty_name d = name) (dynasties g) = Some d"
    using find_first_match[of "dynasties g" "\<lambda>d. dynasty_name d = name"] by blast
  have "resolve_node_uid g name = Some (dynasty_uid d)"
    using a d(3) by (simp add: resolve_node_uid_no_person(2)[OF assms])
  with d show "\<exists>d \<in> set (dynasties g). dynasty_name d = name
               \<and> List.find (\<lambda>d. dynasty_name d = name) (dynasties g) = Some d
               \<and> resolve_node_uid g name = Some (dynasty_uid d)" by blast
next
  assume a: "(\<forall>p \<in> set (persons g). \<not> person_named name p)
            \<and> (\<forall>d \<in> set (dynasties g). dynasty_name d \<noteq> name)
            \<and> (\<exists>e \<in> set (events g). event_name e = name)"
  then obtain e where e: "e \<in> set (events g)" "event_name e = name"
    "List.find (\<lambda>e. event_name e = name) (events g) = Some e"
    using find_first_match[of "events g" "\<lambda>e. event_name e = name"] by blast
  have nd: "List.find (\<lambda>d. dynasty_name d = name) (dynasties g) = None"
    using a by (simp add: find_None_iff)
  have "resolve_node_uid g name = Some (event_uid e)"
    using a e(3) nd by (simp add: resolve_node_uid_no_person(2)[OF assms])
  with e show "\<exists>e \<in> set (events g). event_name e = name
               \<and> List.find (\<lambda>e. event_name e = name) (events g) = Some e
               \<and> resolve_node_uid g name = Some (event_uid e)" by blast
next
  assume a: "(\<forall>p \<in> set (persons g). \<not> person_named name p)
            \<and> (\<forall>d \<in> set (dynasties g). dynasty_name d \<noteq> name)
            \<and> (\<forall>e \<in> set (events g). event_name e \<noteq> name)
            \<and> (\<exists>pl \<in> set (places g). place_name pl = name)"
  then obtain pl where pl: "pl \<in> set (places g)" "place_name pl = name"
    "List.find (\<lambda>pl. place_name pl = name) (places g) = Some pl"
    using find_first_match[of "places g" "\<lambda>pl. place_name pl = name"] by blast
  have nd: "List.find (\<lambda>d. dynasty_name d = name) (dynasties g) = None"
    and ne: "List.find (\<lambda>e. event_name e = name) (events g) = None"
    using a by (simp_all add: find_None_iff)
  have "resolve_node_uid g name = Some (place_uid pl)"
    using a pl(3) nd ne by (simp add: resolve_node_uid_no_person(2)[OF assms])
  with pl show "\<exists>pl \<in> set (places g). place_name pl = name
               \<and> List.find (\<lambda>pl. place_name pl = name) (places g) = Some pl
               \<and> resolve_node_uid g name = Some (place_uid pl)" by blast
next
  assume a: "(\<forall>p \<in> set (persons g). \<not> person_named name p)
            \<and> (\<forall>d \<in> set (dynasties g). dynasty_name d \<noteq> name)
            \<and> (\<forall>e \<in> set (events g). event_name e \<noteq> name)
            \<and> (\<forall>pl \<in> set (places g). place_name pl \<noteq> name)"
  have nd: "List.find (\<lambda>d. dynasty_name d = name) (dynasties g) = None"
    and ne: "List.find (\<lambda>e. event_name e = name) (events g) = None"
    and np: "List.find (\<lambda>pl. place_name pl = name) (places g) = None"
    using a by (simp_all add: find_None_iff)
  show "resolve_node_uid g name = None"
    using a nd ne np by (simp add: resolve_node_uid_no_person(2)[OF assms])
next
  fix relation :: Relation and py_upper :: "pystr \<Rightarrow> pystr" and py_isalnum :: "nat \<Rightarrow> bool"
  assume "resolve_node_uid g (source relation) = None
            \<or> resolve_node_uid g (target relation) = None"
  then show "create_relation_by_name py_upper py_isalnum g relation = (g, False)"
    by (rule create_relation_unresolved)
qed

lemma empty_not_ambiguous: "[] \<notin> AMBIGUOUS_TITLES"
  by (simp add: AMBIGUOUS_TITLES_def)

text \<open>
  Claim C9 (the blacklist and the single-character exclusion act only in identity
  resolution). A blacklisted title or a single-character name is discarded by
  \<open>_filter_ambiguous_names\<close>, yet when a stored person carries it as \<open>original_name\<close> or
  alias, \<open>resolve_person_uid\<close> and \<open>resolve_node_uid\<close> both resolve it to a person
  carrying it (the first in the store), and to that very person when no other carries it.
\<close>

theorem resolution_ignores_blacklist:
  assumes "name \<in> AMBIGUOUS_TITLES \<or> length name = 1"
      and "p \<in> set (persons g)" and "person_named name p"
  shows "filter_ambiguous_names {name} = {}
       \<and> (\<exists>q \<in> set (persons g). person_named name q
             \<and> resolve_person_uid g name = Some (uid q)
             \<and> resolve_node_uid g name = Some (uid q))
       \<and> ((\<forall>q \<in> set (persons g). person_named name q \<longrightarrow> q = p) \<longrightarrow>
             resolve_person_uid g name = Some (uid p)
           \<and> resolve_node_uid g name = Some (uid p))"
proof -
  from assms(1) have ne: "name \<noteq> []" using empty_not_ambiguous by auto
  from assms(2,3) have ex: "\<exists>p \<in> set (persons g). person_named name p" by blast
  from resolve_node_uid_person[OF ne ex] obtain q where q: "q \<in> set (persons g)"
    "person_named name q" "resolve_person_uid g name = Some (uid q)"
    "resolve_node_uid g name = Some (uid q)" by blast
  have "filter_ambiguous_names {name} = {}"
    using assms(1) by (auto simp: filter_ambiguous_names_def)
  with q show ?thesis by metis
qed

lemma merge_edge_has_edge:
  "\<exists>ed \<in> set (merge_edge a t b upd es).
      (\<exists>ed0. ed = upd ed0 \<and> edge_src ed0 = a \<and> edge_type ed0 = t \<and> edge_dst ed0 = b)"
proof (cases "\<exists>e \<in> set es. edge_src e = a \<and> edge_type e = t \<and> edge_dst e = b")
  case True
  then obtain e where e: "e \<in> set es" "edge_src e = a \<and> edge_type e = t \<and> edge_dst e = b"
    by blast
  then have "upd e \<in> set (merge_edge a t b upd es)"
    using True by (force simp: merge_edge_def)
  with e show ?thesis by blast
next
  case False
  let ?new = "\<lparr>edge_src = a, edge_type = t, edge_dst = b,
                edge_description = None, edge_year = None, edge_role = None\<rparr>"
  from False have m: "merge_edge a t b upd es = es @ [upd ?new]"
    unfolding merge_edge_def by (rule if_not_P)
  show ?thesis
    unfolding m by (intro bexI[of _ "upd ?new"] exI[of _ ?new]) simp_all
qed

text \<open>
  Claim C10 (uid fallback of \<open>link_event_participant\<close>). For a participant string that is
  no person's \<open>original_name\<close> or alias: when a person whose uid is that string exists, the
  call merges a \<open>PARTICIPATED_IN\<close> edge from that person to the event and sets its role,
  so the edge is in the graph afterwards; when no such person exists, the call writes
  nothing. The edge is written by a \<open>MATCH\<close> on the event and the person, so the event
  node is taken to exist; without it the call writes nothing either.
\<close>

theorem link_event_participant_uid_fallback:
  assumes "\<forall>p \<in> set (persons g). \<not> person_named name p"
  shows "((\<exists>p \<in> set (persons g). uid p = name) \<and> (\<exists>e \<in> set (events g). event_uid e = euid) \<longrightarrow>
            (\<exists>ed \<in> set (edges (link_event_participant g euid name r)).
                edge_src ed = (PersonL, name) \<and> edge_type ed = PARTICIPATED_IN
              \<and> edge_dst ed = (EventL, euid) \<and> edge_role ed = Some r)
          \<and> link_event_participant g euid name r =
              g\<lparr>edges := merge_edge (PersonL, name) PARTICIPATED_IN (EventL, euid)
                            (\<lambda>e. e\<lparr>edge_role := Some r\<rparr>) (edges g)\<rparr>)
       \<and> ((\<forall>p \<in> set (persons g). uid p \<noteq> name) \<longrightarrow> link_event_participant g euid name r = g)
       \<and> ((\<forall>e \<in> set (events g). event_uid e \<noteq> euid) \<longrightarrow> link_event_participant g euid name r = g)"
proof -
  have e: "(\<lambda>p. original_name p = name \<or> name \<in> set (aliases p)) = person_named name"
    by (simp add: person_named_def fun_eq_iff)
  have "List.find (person_named name) (persons g) = None"
    using assms by (simp add: find_None_iff)
  then have n: "resolve_person_uid g name = None"
    by (simp add: resolve_person_uid_def e)
  have a: "(\<exists>p \<in> set (persons g). uid p = name) \<and> (\<exists>e \<in> set (events g). event_uid e = euid) \<Longrightarrow>
      link_event_participant g euid name r =
              g\<lparr>edges := merge_edge (PersonL, name) PARTICIPATED_IN (EventL, euid)
                            (\<lambda>e. e\<lparr>edge_role := Some r\<rparr>) (edges g)\<rparr>"
    by (simp add: link_event_participant_def n)
  have b: "(\<forall>p \<in> set (persons g). uid p \<noteq> name) \<Longrightarrow> link_event_participant g euid name r = g"
    by (simp add: link_event_participant_def n)
  have c: "(\<forall>e \<in> set (events g). event_uid e \<noteq> euid) \<Longrightarrow> link_event_participant g euid name r = g"
    by (simp add: link_event_participant_def n split: option.splits)
  have d: "\<exists>ed \<in> set (merge_edge (PersonL, name) PARTICIPATED_IN (EventL, euid)
                            (\<lambda>e. e\<lparr>edge_role := Some r\<rparr>) (edges g)).
                edge_src ed = (PersonL, name) \<and> edge_type ed = PARTICIPATED_IN
              \<and> edge_dst ed = (EventL, euid) \<and> edge_role ed = Some r"
  proof -
    from merge_edge_has_edge[of "(PersonL, name)" PARTICIPATED_IN "(EventL, euid)"
            "\<lambda>e. e\<lparr>edge_role := Some r\<rparr>" "edges g"]
    obtain ed ed0 where ed: "ed \<in> set (merge_edge (PersonL, name) PARTICIPATED_IN (EventL, euid)
                            (\<lambda>e. e\<lparr>edge_role := Some r\<rparr>) (edges g))"
      "ed = ed0\<lparr>edge_role := Some r\<rparr>" "edge_src ed0 = (PersonL, name)"
      "edge_type ed0 = PARTICIPATED_IN" "edge_dst ed0 = (EventL, euid)"
      by blast
    then have "edge_src ed = (PersonL, name) \<and> edge_type ed = PARTICIPATED_IN
              \<and> edge_dst ed = (EventL, euid) \<and> edge_role ed = Some r"
      by simp
    with ed(1) show ?thesis by blast
  qed
  show ?thesis
  proof (intro conjI impI)
    assume h: "(\<exists>p \<in> set (persons g). uid p = name) \<and> (\<exists>e \<in> set (events g). event_uid e = euid)"
    show "\<exists>ed \<in> set (edges (link_event_participant g euid name r)).
                edge_src ed = (PersonL, name) \<and> edge_type ed = PARTICIPATED_IN
              \<and> edge_dst ed = (EventL, euid) \<and> edge_role ed = Some r"
      using d by (simp add: a[OF h])
    show "link_event_participant g euid name r =
              g\<lparr>edges := merge_edge (PersonL, name) PARTICIPATED_IN (EventL, euid)
                            (\<lambda>e. e\<lparr>edge_role := Some r\<rparr>) (edges g)\<rparr>"
      by (rule a[OF h])
  next
    assume "\<forall>p \<in> set (persons g). uid p \<noteq> name"
    then show "link_event_participant g euid name r = g" by (rule b)
  next
    assume "\<forall>e \<in> set (events g). event_uid e \<noteq> euid"
    then show "link_event_participant g euid name r = g" by (rule c)
  qed
qed

lemma jin_wang_ambiguous: "[26187, 29579] \<in> AMBIGUOUS_TITLES"
  by (simp add: AMBIGUOUS_TITLES_def)

lemma ex_li_named:
  "person_named [26187, 29579] ex_li" "person_named [20] ex_li" "person_named [76, 75] ex_li"
  "\<not> person_named [76, 83] ex_li" "\<not> person_named [112, 10] ex_li" "\<not> person_named [120] ex_li"
  by (simp_all add: person_named_def ex_li_def)

text \<open>
  A name that is both a person's alias and a dynasty's name resolves to the person; a
  relation whose target is unknown creates nothing.
\<close>

theorem relation_endpoint_resolution_witness:
  "dynasty_name ex_jin = [26187, 29579]
   \<and> resolve_node_uid ex_relation_graph [26187, 29579] = Some (uid ex_li)
   \<and> resolve_node_uid ex_relation_graph (target ex_relation) = None
   \<and> create_relation_by_name (\<lambda>t. t) (\<lambda>c. True) ex_relation_graph ex_relation
       = (ex_relation_graph, False)"
proof -
  have ne: "[26187, 29579] \<noteq> ([] :: pystr)" "[76, 83] \<noteq> ([] :: pystr)" by simp_all
  have p: "\<exists>p \<in> set (persons ex_relation_graph). person_named [26187, 29579] p"
    by (simp add: ex_relation_graph_def ex_li_named)
  from relation_endpoint_resolution[OF ne(1), of ex_relation_graph] p
  obtain q where "q \<in> set (persons ex_relation_graph)"
    "resolve_node_uid ex_relation_graph [26187, 29579] = Some (uid q)" by blast
  then have r1: "resolve_node_uid ex_relation_graph [26187, 29579] = Some (uid ex_li)"
    by (simp add: ex_relation_graph_def)
  have none: "(\<forall>p \<in> set (persons ex_relation_graph). \<not> person_named [76, 83] p)
            \<and> (\<forall>d \<in> set (dynasties ex_relation_graph). dynasty_name d \<noteq> [76, 83])
            \<and> (\<forall>e \<in> set (events ex_relation_graph). event_name e \<noteq> [76, 83])
            \<and> (\<forall>pl \<in> set (places ex_relation_graph). place_name pl \<noteq> [76, 83])"
    by (simp add: ex_relation_graph_def ex_li_named ex_jin_def ex_battle_def)
  from relation_endpoint_resolution[OF ne(2), of ex_relation_graph] none
  have r2: "resolve_node_uid ex_relation_graph [76, 83] = None" by blast
  have t: "target ex_relation = [76, 83]" by (simp add: ex_relation_def)
  from relation_endpoint_resolution[OF ne(2), of ex_relation_graph] r2 t
  have r3: "create_relation_by_name (\<lambda>t. t) (\<lambda>c. True) ex_relation_graph ex_relation
       = (ex_relation_graph, False)" by simp
  have "dynasty_name ex_jin = [26187, 29579]" by (simp add: ex_jin_def)
  with r1 r2 r3 t show ?thesis by simp
qed

text \<open>
  A blacklisted title and a single-character name, both aliases of one person.
\<close>

theorem resolution_ignores_blacklist_witness:
  "[26187, 29579] \<in> AMBIGUOUS_TITLES
   \<and> resolve_person_uid ex_relation_graph [26187, 29579] = Some (uid ex_li)
   \<and> resolve_node_uid ex_relation_graph [26187, 29579] = Some (uid ex_li)
   \<and> resolve_person_uid ex_relation_graph [20] = Some (uid ex_li)
   \<and> filter_ambiguous_names {[26187, 29579]} = {}
   \<and> filter_ambiguous_names {[20]} = {}"
proof -
  have in_g: "ex_li \<in> set (persons ex_relation_graph)"
    by (simp add: ex_relation_graph_def)
  have only: "\<And>n. \<forall>q \<in> set (persons ex_relation_graph). person_named n q \<longrightarrow> q = ex_li"
    by (simp add: ex_relation_graph_def)
  have a1: "[26187, 29579] \<in> AMBIGUOUS_TITLES \<or> length [26187, 29579 :: nat] = 1"
    by (simp add: jin_wang_ambiguous)
  have a2: "[20] \<in> AMBIGUOUS_TITLES \<or> length [20 :: nat] = 1" by simp
  from resolution_ignores_blacklist[OF a1 in_g ex_li_named(1)] only
  have b1: "filter_ambiguous_names {[26187, 29579]} = {}
      \<and> resolve_person_uid ex_relation_graph [26187, 29579] = Some (uid ex_li)
      \<and> resolve_node_uid ex_relation_graph [26187, 29579] = Some (uid ex_li)" by blast
  from resolution_ignores_blacklist[OF a2 in_g ex_li_named(2)] only
  have b2: "filter_ambiguous_names {[20]} = {}
      \<and> resolve_person_uid ex_relation_graph [20] = Some (uid ex_li)" by blast
  from b1 b2 jin_wang_ambiguous show ?thesis by blast
qed

text \<open>
  A participant given by uid is linked; an unknown string leaves the graph as it was.
\<close>

theorem link_event_participant_uid_fallback_witness:
  "(\<exists>ed \<in> set (edges (link_event_participant ex_relation_graph [101, 1] [112, 10]
                         DEFAULT_PARTICIPANT_ROLE)).
       edge_src ed = (PersonL, [112, 10]) \<and> edge_type ed = PARTICIPATED_IN
     \<and> edge_dst ed = (EventL, [101, 1]) \<and> edge_role ed = Some DEFAULT_PARTICIPANT_ROLE)
   \<and> link_event_participant ex_relation_graph [101, 1] [120] DEFAULT_PARTICIPANT_ROLE
       = ex_relation_graph"
proof -
  have n1: "\<forall>p \<in> set (persons ex_relation_graph). \<not> person_named [112, 10] p"
    and n2: "\<forall>p \<in> set (persons ex_relation_graph). \<not> person_named [120] p"
    by (simp_all add: ex_relation_graph_def ex_li_named)
  have h: "(\<exists>p \<in> set (persons ex_relation_graph). uid p = [112, 10])
      \<and> (\<exists>e \<in> set (events ex_relation_graph). event_uid e = [101, 1])"
    by (simp add: ex_relation_graph_def ex_li_def ex_battle_def)
  have k: "\<forall>p \<in> set (persons ex_relation_graph). uid p \<noteq> [120]"
    by (simp add: ex_relation_graph_def ex_li_def)
  from link_event_participant_uid_fallback[OF n1, of "[101, 1]" DEFAULT_PARTICIPANT_ROLE] h
  have a: "\<exists>ed \<in> set (edges (link_event_participant ex_relation_graph [101, 1] [112, 10]
                         DEFAULT_PARTICIPANT_ROLE)).
       edge_src ed = (PersonL, [112, 10]) \<and> edge_type ed = PARTICIPATED_IN
     \<and> edge_dst ed = (EventL, [101, 1]) \<and> edge_role ed = Some DEFAULT_PARTICIPANT_ROLE"
    by blast
  from link_event_participant_uid_fallback[OF n2, of "[101, 1]" DEFAULT_PARTICIPANT_ROLE] k
  have b: "link_event_participant ex_relation_graph [101, 1] [120] DEFAULT_PARTICIPANT_ROLE
       = ex_relation_graph" by blast
  from a b show ?thesis by blast
qed

section \<open>Temporal relation repair: proofs\<close>

lemma year_after_iff:
  "(case event_year e of None \<Rightarrow> False | Some y \<Rightarrow> dy < y) = (\<exists>y. event_year e = Some y \<and> dy < y)"
  by (cases "event_year e") simp_all

lemma to_remove_iff:
  "x \<in> set (map event_uid (filter (\<lambda>e. \<not> memorial e) (post_death g u dy))) \<longleftrightarrow>
     (\<exists>p \<in> set (persons g). uid p = u)
   \<and> (\<exists>ed' \<in> set (edges g). edge_src ed' = (PersonL, u) \<and> edge_type ed' = PARTICIPATED_IN
         \<and> fst (edge_dst ed') = EventL
         \<and> (\<exists>e \<in> set (events g). event_uid e = snd (edge_dst ed') \<and> event_uid e = x
               \<and> (\<exists>y. event_year e = Some y \<and> dy < y) \<and> \<not> memorial e))"
  unfolding post_death_def
  by (auto simp: year_after_iff split: if_splits cong: if_cong) 

lemma removable_iff_filter:
  assumes "ed \<in> set (edges g)"
  shows "(edge_src ed = (PersonL, u) \<and> edge_type ed = PARTICIPATED_IN
            \<and> fst (edge_dst ed) = EventL
            \<and> (\<exists>p \<in> set (persons g). uid p = u)
            \<and> (\<exists>e \<in> set (events g). event_uid e = snd (edge_dst ed))
            \<and> snd (edge_dst ed) \<in> set (map event_uid (filter (\<lambda>e. \<not> memorial e) (post_death g u dy))))
         = removable g u dy ed"
  unfolding to_remove_iff removable_def using assms by auto

lemma remove_for_person_edges:
  "edges (remove_for_person (u, dy) g) = filter (\<lambda>ed. \<not> removable g u dy ed) (edges g)"
proof (cases "map event_uid (filter (\<lambda>e. \<not> memorial e) (post_death g u dy)) = []")
  case True
  have "\<forall>ed \<in> set (edges g). \<not> removable g u dy ed"
  proof
    fix ed assume ed: "ed \<in> set (edges g)"
    have "snd (edge_dst ed) \<notin> set (map event_uid (filter (\<lambda>e. \<not> memorial e) (post_death g u dy)))"
      unfolding True by simp
    then show "\<not> removable g u dy ed"
      using removable_iff_filter[OF ed, of u dy] by blast
  qed
  then have "filter (\<lambda>ed. \<not> removable g u dy ed) (edges g) = edges g"
    by (simp add: filter_id_conv)
  then show ?thesis using True by (simp add: remove_for_person_def)
next
  case False
  have "filter (\<lambda>ed. \<not> (edge_src ed = (PersonL, u) \<and> edge_type ed = PARTICIPATED_IN
            \<and> fst (edge_dst ed) = EventL
            \<and> (\<exists>p \<in> set (persons g). uid p = u)
            \<and> (\<exists>e \<in> set (events g). event_uid e = snd (edge_dst ed))
            \<and> snd (edge_dst ed) \<in> set (map event_uid (filter (\<lambda>e. \<not> memorial e) (post_death g u dy)))))
          (edges g)
        = filter (\<lambda>ed. \<not> removable g u dy ed) (edges g)"
    by (rule filter_cong[OF refl]) (simp only: removable_iff_filter)
  then show ?thesis using False by (simp add: remove_for_person_def Let_def)
qed

lemma remove_for_person_nodes:
  "persons (remove_for_person kv g) = persons g" "events (remove_for_person kv g) = events g"
  by (cases kv; simp add: remove_for_person_def Let_def)+

lemma removable_remove_for_person:
  "removable (remove_for_person kv g) u dy ed = removable g u dy ed"
  by (simp add: removable_def remove_for_person_nodes)

lemma fold_remove_for_person:
  "persons (fold remove_for_person kvs g) = persons g
   \<and> events (fold remove_for_person kvs g) = events g
   \<and> edges (fold remove_for_person kvs g)
       = filter (\<lambda>ed. \<not> (\<exists>(u, dy) \<in> set kvs. removable g u dy ed)) (edges g)"
proof (induction kvs arbitrary: g)
  case Nil
  then show ?case by simp
next
  case (Cons kv kvs)
  obtain u dy where kv: "kv = (u, dy)" by (cases kv)
  let ?g1 = "remove_for_person kv g"
  have "edges (fold remove_for_person kvs ?g1)
       = filter (\<lambda>ed. \<not> (\<exists>(u, dy) \<in> set kvs. removable g u dy ed))
           (filter (\<lambda>ed. \<not> removable g u dy ed) (edges g))"
    using Cons.IH[of ?g1] by (simp add: removable_remove_for_person kv remove_for_person_edges)
  also have "\<dots> = filter (\<lambda>ed. \<not> (\<exists>(u, dy) \<in> set (kv # kvs). removable g u dy ed)) (edges g)"
    by (auto simp: kv intro: filter_cong)
  finally show ?case using Cons.IH[of ?g1] by (simp add: remove_for_person_nodes)
qed

lemma dict_set_map_fst:
  "map fst (dict_set k v kvs) = (if k \<in> fst ` set kvs then map fst kvs else map fst kvs @ [k])"
proof (induction kvs)
  case Nil
  then show ?case by simp
next
  case (Cons kv kvs)
  obtain k' v' where kv: "kv = (k', v')" by (cases kv)
  show ?case
  proof (cases "k = k'")
    case True
    then show ?thesis by (simp add: kv)
  next
    case False
    then show ?thesis using Cons.IH by (simp add: kv)
  qed
qed

lemma dict_set_keys: "fst ` set (dict_set k v kvs) = insert k (fst ` set kvs)"
proof -
  have "set (map fst (dict_set k v kvs)) = insert k (set (map fst kvs))"
    unfolding dict_set_map_fst by auto
  then show ?thesis by simp
qed

lemma dict_set_fresh: "k \<notin> fst ` set kvs \<Longrightarrow> set (dict_set k v kvs) = insert (k, v) (set kvs)"
  by (induction kvs) force+

lemma death_years_fold:
  assumes "distinct (map uid ps)" and "fst ` set acc \<inter> uid ` set ps = {}"
  shows "set (fold (\<lambda>p d. case death_year p of None \<Rightarrow> d | Some dy \<Rightarrow> dict_set (uid p) dy d) ps acc)
         = set acc \<union> {(uid p, dy) | p dy. p \<in> set ps \<and> death_year p = Some dy}"
  using assms
proof (induction ps arbitrary: acc)
  case Nil
  then show ?case by simp
next
  case (Cons p ps)
  show ?case
  proof (cases "death_year p")
    case None
    have "fst ` set acc \<inter> uid ` set ps = {}" using Cons.prems(2) by auto
    with Cons.IH[of acc] Cons.prems(1) None show ?thesis by auto
  next
    case (Some dy)
    have fresh: "uid p \<notin> fst ` set acc" using Cons.prems(2) by auto
    have "fst ` set (dict_set (uid p) dy acc) \<inter> uid ` set ps = {}"
      using Cons.prems by (auto simp: dict_set_keys)
    with Cons.IH[of "dict_set (uid p) dy acc"] Cons.prems(1)
    have "set (fold (\<lambda>p d. case death_year p of None \<Rightarrow> d | Some dy \<Rightarrow> dict_set (uid p) dy d)
                 ps (dict_set (uid p) dy acc))
          = set (dict_set (uid p) dy acc) \<union> {(uid p, dy) | p dy. p \<in> set ps \<and> death_year p = Some dy}"
      by simp
    then show ?thesis using Some by (auto simp: dict_set_fresh[OF fresh])
  qed
qed

lemma death_years_set:
  "distinct (map uid (persons g)) \<Longrightarrow>
   set (death_years g) = {(uid p, dy) | p dy. p \<in> set (persons g) \<and> death_year p = Some dy}"
  unfolding death_years_def using death_years_fold[of "persons g" "[]"] by simp

lemma memorial_if_contains:
  "kw \<in> set MEMORIAL_KEYWORDS \<Longrightarrow> sublist kw (event_description e) \<or> sublist kw (event_name e)
   \<Longrightarrow> memorial e"
  unfolding memorial_def sublist_append by blast

lemma distinct_event_uid_eq:
  "distinct (map event_uid xs) \<Longrightarrow> a \<in> set xs \<Longrightarrow> b \<in> set xs \<Longrightarrow> event_uid a = event_uid b
   \<Longrightarrow> a = b"
  by (auto simp: distinct_map dest: inj_onD)

text \<open>
  The removal loop alone (step 2 of the pass). In a store with unique person and event
  uids, take a person with a known death year \<open>dy\<close>, an event with a known year \<open>y\<close>,
  and a \<open>PARTICIPATED_IN\<close> edge from the person to the event. After the loop the edge is in
  the graph exactly when it was there before and it is not the case that \<open>y\<close> exceeds
  \<open>dy\<close> with no memorial keyword in the text searched. That text is the description
  followed at once by the name, so a keyword contained in the description or in the name
  keeps the edge; so does one that lies across the two, which is the subject of the theorem
  below. Nodes are untouched.
\<close>

lemma removal_loop_spec:
  assumes "distinct (map uid (persons g))" and "distinct (map event_uid (events g))"
      and "p \<in> set (persons g)" and "death_year p = Some dy"
      and "e \<in> set (events g)" and "event_year e = Some y"
      and "edge_src ed = (PersonL, uid p)" and "edge_type ed = PARTICIPATED_IN"
      and "edge_dst ed = (EventL, event_uid e)"
  shows "(ed \<in> set (edges (remove_post_death_relations g))
            \<longleftrightarrow> ed \<in> set (edges g) \<and> \<not> (dy < y \<and> \<not> memorial e))
       \<and> ((\<exists>kw \<in> set MEMORIAL_KEYWORDS.
              sublist kw (event_description e) \<or> sublist kw (event_name e)) \<longrightarrow> memorial e)
       \<and> persons (remove_post_death_relations g) = persons g
       \<and> events (remove_post_death_relations g) = events g"
proof -
  have "(\<exists>(u, d) \<in> set (death_years g). removable g u d ed) \<longleftrightarrow> (dy < y \<and> \<not> memorial e)"
  proof
    assume "\<exists>(u, d) \<in> set (death_years g). removable g u d ed"
    then obtain u d where ud: "(u, d) \<in> set (death_years g)" "removable g u d ed" by blast
    from ud(2) assms(7) have u: "u = uid p" by (simp add: removable_def)
    from ud(1) obtain p' where p': "p' \<in> set (persons g)" "uid p' = u" "death_year p' = Some d"
      by (auto simp: death_years_set[OF assms(1)])
    have "p' = p" using assms(1) p'(1) assms(3) p'(2) u by (intro distinct_uid_eq[of "persons g"]) simp_all
    with p'(3) assms(4) have d: "d = dy" by simp
    from ud(2) assms(9) obtain e' where e': "e' \<in> set (events g)" "event_uid e' = event_uid e"
      "\<exists>y. event_year e' = Some y \<and> d < y" "\<not> memorial e'"
      by (auto simp: removable_def)
    have "e' = e" using assms(2) e'(1) assms(5) e'(2) by (rule distinct_event_uid_eq)
    with e' assms(6) d show "dy < y \<and> \<not> memorial e" by simp
  next
    assume a: "dy < y \<and> \<not> memorial e"
    have "(uid p, dy) \<in> set (death_years g)"
      using assms(3,4) by (auto simp: death_years_set[OF assms(1)])
    moreover have "removable g (uid p) dy ed"
      using assms a by (auto simp: removable_def)
    ultimately show "\<exists>(u, d) \<in> set (death_years g). removable g u d ed" by blast
  qed
  then have "ed \<in> set (edges (remove_post_death_relations g))
            \<longleftrightarrow> ed \<in> set (edges g) \<and> \<not> (dy < y \<and> \<not> memorial e)"
    unfolding remove_post_death_relations_def
    using fold_remove_for_person[of "death_years g" g] by auto
  moreover have "(\<exists>kw \<in> set MEMORIAL_KEYWORDS.
              sublist kw (event_description e) \<or> sublist kw (event_name e)) \<longrightarrow> memorial e"
    using memorial_if_contains by blast
  ultimately show ?thesis
    unfolding remove_post_death_relations_def
    using fold_remove_for_person[of "death_years g" g] by simp
qed

lemma ex_memorial: "\<not> memorial ex_battle" "memorial ex_burial"
  by (simp_all add: memorial_def MEMORIAL_KEYWORDS_def ex_battle_def ex_burial_def sublist_Cons_right)

text \<open>
  Death year 912, two events of year 920: the loop removes the edge to the event without a
  memorial keyword and keeps the edge to the event whose description has one.
\<close>

lemma removal_loop_example:
  "death_year ex_li = Some 912 \<and> event_year ex_battle = Some 920 \<and> event_year ex_burial = Some 920
   \<and> ex_edge_battle \<in> set (edges ex_repair_graph)
   \<and> ex_edge_burial \<in> set (edges ex_repair_graph)
   \<and> ex_edge_battle \<notin> set (edges (remove_post_death_relations ex_repair_graph))
   \<and> ex_edge_burial \<in> set (edges (remove_post_death_relations ex_repair_graph))"
proof -
  have d1: "distinct (map uid (persons ex_repair_graph))"
    and d2: "distinct (map event_uid (events ex_repair_graph))"
    and pin: "ex_li \<in> set (persons ex_repair_graph)"
    and e1: "ex_battle \<in> set (events ex_repair_graph)"
    and e2: "ex_burial \<in> set (events ex_repair_graph)"
    and i1: "ex_edge_battle \<in> set (edges ex_repair_graph)"
    and i2: "ex_edge_burial \<in> set (edges ex_repair_graph)"
    by (simp_all add: ex_repair_graph_def ex_battle_def ex_burial_def)
  have dy: "death_year ex_li = Some 912" by (simp add: ex_li_def)
  have y1: "event_year ex_battle = Some 920" and y2: "event_year ex_burial = Some 920"
    by (simp_all add: ex_battle_def ex_burial_def)
  have s1: "edge_src ex_edge_battle = (PersonL, uid ex_li)"
       "edge_type ex_edge_battle = PARTICIPATED_IN"
       "edge_dst ex_edge_battle = (EventL, event_uid ex_battle)"
    by (simp_all add: ex_edge_battle_def ex_li_def ex_battle_def)
  have s2: "edge_src ex_edge_burial = (PersonL, uid ex_li)"
       "edge_type ex_edge_burial = PARTICIPATED_IN"
       "edge_dst ex_edge_burial = (EventL, event_uid ex_burial)"
    by (simp_all add: ex_edge_burial_def ex_li_def ex_burial_def)
  from removal_loop_spec[OF d1 d2 pin dy e1 y1 s1] ex_memorial(1)
  have r1: "ex_edge_battle \<notin> set (edges (remove_post_death_relations ex_repair_graph))"
    by simp
  from removal_loop_spec[OF d1 d2 pin dy e2 y2 s2] ex_memorial(2) i2
  have r2: "ex_edge_burial \<in> set (edges (remove_post_death_relations ex_repair_graph))"
    by simp
  from dy y1 y2 i1 i2 r1 r2 show ?thesis by simp
qed

subsection \<open>The whole pass at concrete graphs\<close>

lemma ex_straddle_death_years: "death_years ex_straddle_graph = [([112, 10], 912)]"
  by (simp add: death_years_def ex_straddle_graph_def ex_li_def)

lemma ex_straddle_memorial: "memorial ex_straddle"
  by (simp add: memorial_def MEMORIAL_KEYWORDS_def ex_straddle_def sublist_Cons_right)

lemma ex_straddle_no_keyword:
  "\<not> (\<exists>kw \<in> set MEMORIAL_KEYWORDS. sublist kw (event_description ex_straddle))"
  "\<not> (\<exists>kw \<in> set MEMORIAL_KEYWORDS. sublist kw (event_name ex_straddle))"
  by (simp_all add: MEMORIAL_KEYWORDS_def ex_straddle_def sublist_Cons_right)

lemma ex_straddle_removal:
  "fold remove_for_person (death_years ex_straddle_graph) ex_straddle_graph = ex_straddle_graph"
  by (simp add: ex_straddle_death_years remove_for_person_def post_death_def Let_def
        ex_straddle_memorial)
     (simp add: ex_straddle_graph_def ex_edge_straddle_def ex_li_def ex_straddle_memorial)

lemma ex_straddle_name_map:
  "get_all_person_name_map ex_straddle_graph = [([76, 75], [112, 10]), ([26187, 29579], [112, 10])]"
  by (simp add: get_all_person_name_map_def ex_straddle_graph_def ex_li_def)

lemma ex_straddle_final_link:
  "final_link dys [([76, 75], [112, 10]), ([26187, 29579], [112, 10])] ex_straddle = []"
  by (simp add: final_link_def should_link_def Let_def ex_straddle_def sublist_Cons_right)

text \<open>
  Claim C6 (temporal relation repair: an edge to an event after the person's death is
  removed unless the event's description or name contains a memorial keyword) against the
  code at a concrete graph. The person died in 912, the event is of year 920, and the graph
  has the \<open>PARTICIPATED_IN\<close> edge between them. The description ends with the code point
  36861 and the name begins with 23553; the two together are the first memorial keyword,
  but neither the description nor the name contains any keyword. The removal loop searches
  the description followed at once by the name, finds the keyword across the two, and keeps
  the edge; the rest of the pass, which searches the two with a space between, adds and
  deletes nothing here. The edge is there after the whole pass.
\<close>

theorem straddling_keyword_keeps_post_death_edge:
  "persons ex_straddle_graph = [ex_li] \<and> death_year ex_li = Some 912
   \<and> events ex_straddle_graph = [ex_straddle] \<and> event_year ex_straddle = Some 920
   \<and> edges ex_straddle_graph = [ex_edge_straddle]
   \<and> edge_src ex_edge_straddle = (PersonL, uid ex_li)
   \<and> edge_type ex_edge_straddle = PARTICIPATED_IN
   \<and> edge_dst ex_edge_straddle = (EventL, event_uid ex_straddle)
   \<and> \<not> (\<exists>kw \<in> set MEMORIAL_KEYWORDS. sublist kw (event_description ex_straddle))
   \<and> \<not> (\<exists>kw \<in> set MEMORIAL_KEYWORDS. sublist kw (event_name ex_straddle))
   \<and> edges (remove_post_death_relations ex_straddle_graph) = [ex_edge_straddle]
   \<and> edges (run_phase2_event_relations ex_straddle_graph) = [ex_edge_straddle]"
proof -
  have a: "persons ex_straddle_graph = [ex_li]" "events ex_straddle_graph = [ex_straddle]"
      "edges ex_straddle_graph = [ex_edge_straddle]"
    by (simp_all add: ex_straddle_graph_def)
  have b: "death_year ex_li = Some 912" "event_year ex_straddle = Some 920"
      "edge_src ex_edge_straddle = (PersonL, uid ex_li)"
      "edge_type ex_edge_straddle = PARTICIPATED_IN"
      "edge_dst ex_edge_straddle = (EventL, event_uid ex_straddle)"
    by (simp_all add: ex_li_def ex_straddle_def ex_edge_straddle_def)
  have c: "edges (remove_post_death_relations ex_straddle_graph) = [ex_edge_straddle]"
    by (simp add: remove_post_death_relations_def ex_straddle_removal a)
  have "relink_events (death_years ex_straddle_graph)
          (get_all_person_name_map ex_straddle_graph) (events ex_straddle_graph) []
          ex_straddle_graph = ex_straddle_graph"
    by (simp add: ex_straddle_name_map a ex_straddle_final_link)
  then have d: "edges (run_phase2_event_relations ex_straddle_graph) = [ex_edge_straddle]"
    by (simp add: run_phase2_event_relations_def Let_def ex_straddle_removal a)
       (simp add: ex_edge_straddle_def)
  from a b c d ex_straddle_no_keyword show ?thesis by simp
qed

lemma ex_year_zero_death_years: "death_years ex_year_zero_graph = [([112, 11], 0)]"
  by (simp add: death_years_def ex_year_zero_graph_def ex_year_zero_def)

lemma ex_council_not_memorial: "\<not> memorial ex_council"
  by (simp add: memorial_def MEMORIAL_KEYWORDS_def ex_council_def sublist_Cons_right)

lemma ex_council_fields:
  "event_uid ex_council = [101, 4]" "event_year ex_council = Some 920"
  by (simp_all add: ex_council_def)

lemma ex_year_zero_post_death:
  "post_death ex_year_zero_graph [112, 11] 0 = [ex_council]"
  by (simp add: post_death_def ex_year_zero_graph_def ex_edge_council_def ex_year_zero_def
        ex_council_fields)

lemma ex_year_zero_removal:
  "fold remove_for_person (death_years ex_year_zero_graph) ex_year_zero_graph
     = ex_year_zero_graph\<lparr>edges := []\<rparr>"
  by (simp add: ex_year_zero_death_years remove_for_person_def ex_year_zero_post_death Let_def
        ex_council_not_memorial ex_council_fields)
     (simp add: ex_year_zero_graph_def ex_edge_council_def ex_council_fields ex_year_zero_def)

lemma ex_year_zero_name_map:
  "get_all_person_name_map (ex_year_zero_graph\<lparr>edges := []\<rparr>) = [([76, 83], [112, 11])]"
  by (simp add: get_all_person_name_map_def ex_year_zero_graph_def ex_year_zero_def)

lemma ex_year_zero_final_link:
  "final_link [([112, 11], 0)] [([76, 83], [112, 11])] ex_council = [[112, 11]]"
  by (simp add: final_link_def should_link_def Let_def ex_council_def sublist_Cons_right
        truthy_year_def)

text \<open>
  A second way for such an edge to outlive the pass. The person has death year 0, the event
  is of year 920, names the person among its participants and has no memorial keyword. The
  removal loop, which takes every death year that is not null, deletes the edge; the
  re-linking step tests \<open>if dy and year and year > dy\<close>, where 0 counts as no year, and
  creates the edge again.
\<close>

lemma death_year_zero_edge_recreated:
  "persons ex_year_zero_graph = [ex_year_zero] \<and> death_year ex_year_zero = Some 0
   \<and> events ex_year_zero_graph = [ex_council] \<and> event_year ex_council = Some 920
   \<and> edges ex_year_zero_graph = [ex_edge_council]
   \<and> \<not> memorial ex_council
   \<and> edges (remove_post_death_relations ex_year_zero_graph) = []
   \<and> edges (run_phase2_event_relations ex_year_zero_graph) = [ex_edge_council]"
proof -
  have a: "persons ex_year_zero_graph = [ex_year_zero]" "events ex_year_zero_graph = [ex_council]"
      "edges ex_year_zero_graph = [ex_edge_council]"
    by (simp_all add: ex_year_zero_graph_def)
  have b: "death_year ex_year_zero = Some 0" "event_year ex_council = Some 920"
    by (simp_all add: ex_year_zero_def ex_council_def)
  have c: "edges (remove_post_death_relations ex_year_zero_graph) = []"
    by (simp add: remove_post_death_relations_def ex_year_zero_removal)
  have "relink_events (death_years ex_year_zero_graph)
          (get_all_person_name_map (ex_year_zero_graph\<lparr>edges := []\<rparr>))
          (events (ex_year_zero_graph\<lparr>edges := []\<rparr>)) []
          (ex_year_zero_graph\<lparr>edges := []\<rparr>) = ex_year_zero_graph"
    by (simp add: ex_year_zero_name_map a ex_year_zero_final_link ex_year_zero_death_years
          flush_event_links_def flush_event_link_def Let_def merge_edge_def)
       (simp add: ex_year_zero_graph_def ex_year_zero_def ex_council_def ex_edge_council_def)
  then have d: "edges (run_phase2_event_relations ex_year_zero_graph) = [ex_edge_council]"
    by (simp add: run_phase2_event_relations_def Let_def ex_year_zero_removal a)
       (simp add: ex_edge_council_def)
  from a b c d ex_council_not_memorial show ?thesis by simp
qed

section \<open>Ingestion pipeline: proofs\<close>

lemma save_point_step_state:
  "processed_chunks (fst (save_point_step env sp s)) = processed_chunks s"
  "store (fst (save_point_step env sp s)) = store s"
  "extract_calls (fst (save_point_step env sp s)) = extract_calls s"
  "results (fst (save_point_step env sp s)) = results s"
  "progress (fst (save_point_step env sp s)) = progress s
   \<or> progress (fst (save_point_step env sp s)) = Saved (processed_chunks s)"
  by (simp_all add: save_point_step_def Let_def)

lemma slice_nil: "slice_from n [] = []" "slice_to n [] = []"
  by (simp_all add: slice_from_def slice_to_def)

text \<open>
  Claim C7 (resume idempotence). With \<open>clear_db\<close> off and \<open>resume\<close> on, when the progress
  file holds a set of chunk ids that contains the id of every chunk of the unit sequence,
  \<open>run\<close> hands no chunk to the extractor, leaves the graph store as it was whatever the
  writer would do, ends with that same set as its processed set, and the progress file holds
  that same set at the end; this for every offset and limit and whatever the surroundings
  do.
\<close>

theorem resume_idempotence:
  assumes "progress s = Saved ids" and "\<forall>c \<in> set chunks. chunk_id c \<in> ids"
  shows "extract_calls (fst (run writer env chunks False True max_chunks start_from s))
           = extract_calls s
       \<and> store (fst (run writer env chunks False True max_chunks start_from s)) = store s
       \<and> processed_chunks (fst (run writer env chunks False True max_chunks start_from s)) = ids
       \<and> progress (fst (run writer env chunks False True max_chunks start_from s)) = Saved ids"
proof (cases "\<not> load_chunks_ok env \<or> chunks = []")
  case True
  then have "run writer env chunks False True max_chunks start_from s
      = (load_progress s, if load_chunks_ok env then None else Some ChunkLoadError)"
    by (cases "load_chunks_ok env") (simp_all add: run_def Let_def)
  then show ?thesis using assms(1) by (simp add: load_progress_def)
next
  case lc: False
  then have ok: "load_chunks_ok env" and False: "chunks \<noteq> []" by simp_all
  let ?s1 = "load_progress s"
  have s1: "?s1 = s\<lparr>processed_chunks := ids\<rparr>"
    using assms(1) by (simp add: load_progress_def)
  from False obtain c where "c \<in> set chunks" by (cases chunks) auto
  with assms(2) have ne: "ids \<noteq> {}" by auto
  have pending: "filter (\<lambda>c. chunk_id c \<notin> ids) chunks = []"
    using assms(2) by (simp add: filter_empty_conv)
  have r: "run writer env chunks False True max_chunks start_from s
      = save_point_step env Final (s\<lparr>processed_chunks := ids, results := []\<rparr>)"
    using False ok ne by (simp add: run_def Let_def s1 pending slice_nil split: option.splits)
  show ?thesis
    unfolding r
    using save_point_step_state(5)[of env Final "s\<lparr>processed_chunks := ids, results := []\<rparr>"]
          assms(1)
    by (auto simp: save_point_step_state)
qed

text \<open>
  Two chunks, both recorded in the progress file, with an extractor and a writer that would
  add a person to the store.
\<close>

theorem resume_idempotence_witness:
  "extract_calls (fst (run (write_result_to_neo4j (\<lambda>t. t) (\<lambda>c. True)) ex_env
       [ex_chunk 1, ex_chunk 2] False True None 0 ex_resumed_pipeline)) = []
   \<and> store (fst (run (write_result_to_neo4j (\<lambda>t. t) (\<lambda>c. True)) ex_env
       [ex_chunk 1, ex_chunk 2] False True None 0 ex_resumed_pipeline)) = ex_relation_graph
   \<and> progress (fst (run (write_result_to_neo4j (\<lambda>t. t) (\<lambda>c. True)) ex_env
       [ex_chunk 1, ex_chunk 2] False True None 0 ex_resumed_pipeline))
       = Saved {[99, 1], [99, 2]}"
proof -
  have h1: "progress ex_resumed_pipeline = Saved {[99, 1], [99, 2]}"
    by (simp add: ex_resumed_pipeline_def)
  have h2: "\<forall>c \<in> set [ex_chunk 1, ex_chunk 2]. chunk_id c \<in> {[99, 1], [99, 2]}"
    by (simp add: ex_chunk_def)
  from resume_idempotence[OF h1 h2, of "write_result_to_neo4j (\<lambda>t. t) (\<lambda>c. True)" ex_env None 0]
  show ?thesis by (simp add: ex_resumed_pipeline_def)
qed

text \<open>
  A failed extraction: the chunk id goes to the processed set and nothing else changes; the
  store in particular is the one before.
\<close>

lemma process_chunk_extraction_failure:
  assumes "extract_from_chunk env i (store s) chunk = None"
  shows "process_chunk writer env i chunk s =
           s\<lparr>extract_calls := extract_calls s @ [chunk_id chunk],
             processed_chunks := insert (chunk_id chunk) (processed_chunks s)\<rparr>"
    and "store (process_chunk writer env i chunk s) = store s"
  using assms by (simp_all add: process_chunk_def)

lemma process_chunk_state:
  "processed_chunks (process_chunk writer env i chunk s) = insert (chunk_id chunk) (processed_chunks s)"
  "extract_calls (process_chunk writer env i chunk s) = extract_calls s @ [chunk_id chunk]"
  by (cases "extract_from_chunk env i (store s) chunk"; simp add: process_chunk_def)+

text \<open>
  When no save point raises, the loop reaches the end of its input whatever the extractor
  answers, and every chunk has been handed to the extractor and recorded as processed.
\<close>

lemma process_chunks_all:
  assumes "\<forall>sp. progress_write_ok env sp \<and> results_write_ok env sp \<and> graph_stats_ok env sp"
  shows "snd (process_chunks writer env i cs s) = None
       \<and> processed_chunks (fst (process_chunks writer env i cs s))
           = processed_chunks s \<union> chunk_id ` set cs
       \<and> extract_calls (fst (process_chunks writer env i cs s))
           = extract_calls s @ map chunk_id cs"
proof (induction cs arbitrary: i s)
  case Nil
  then show ?case by simp
next
  case (Cons c cs)
  have sp: "\<And>sp t. save_point_step env sp t = (t\<lparr>progress := Saved (processed_chunks t)\<rparr>, None)"
    using assms by (simp add: save_point_step_def)
  show ?case
    by (simp add: sp Cons.IH process_chunk_state)
qed

text \<open>
  What can end the chunk loop early: a write of a checkpoint file that fails, or a statistics
  query that fails, at some save point.
\<close>

lemma save_point_step_error_cause:
  "save_point_step env sp s = (s', Some err) \<Longrightarrow>
     (err = CheckpointIOError \<and> (\<not> progress_write_ok env sp \<or> \<not> results_write_ok env sp))
     \<or> (err = StoreQueryError \<and> \<not> graph_stats_ok env sp)"
  by (auto simp: save_point_step_def Let_def split: if_splits)

lemma process_chunks_error_cause:
  "snd (process_chunks writer env i cs s) = Some err \<Longrightarrow>
     \<exists>sp. (err = CheckpointIOError \<and> (\<not> progress_write_ok env sp \<or> \<not> results_write_ok env sp))
        \<or> (err = StoreQueryError \<and> \<not> graph_stats_ok env sp)"
proof (induction cs arbitrary: i s)
  case Nil
  then show ?case by simp
next
  case (Cons c cs)
  show ?case
  proof (cases "(i + 1) mod 10 = 0")
    case False
    with Cons.prems
    have "snd (process_chunks writer env (i + 1) cs (process_chunk writer env i c s)) = Some err"
      by simp
    then show ?thesis by (rule Cons.IH)
  next
    case True
    obtain s4 e where s4: "save_point_step env (Periodic (i + 1)) (process_chunk writer env i c s) = (s4, e)"
      by (cases "save_point_step env (Periodic (i + 1)) (process_chunk writer env i c s)")
    show ?thesis
    proof (cases e)
      case None
      with Cons.prems True s4 have "snd (process_chunks writer env (i + 1) cs s4) = Some err"
        by simp
      then show ?thesis by (rule Cons.IH)
    next
      case (Some e')
      with Cons.prems True s4 have "e' = err" by simp
      with s4 Some show ?thesis
        using save_point_step_error_cause[of env "Periodic (i + 1)" "process_chunk writer env i c s" s4 err]
        by blast
    qed
  qed
qed

text \<open>
  What can end a run with an error: \<open>clear_database\<close> failing when the store is to be
  cleared, the loading of the chunks failing, or one of the two causes above at a save
  point. The extraction and the writes of one result are guarded and are not among them.
\<close>

lemma run_error_cause:
  "snd (run writer env chunks clear_db resume max_chunks start_from s) = Some err \<Longrightarrow>
     (err = StoreClearError \<and> clear_db \<and> \<not> clear_database_ok env)
     \<or> (err = ChunkLoadError \<and> \<not> load_chunks_ok env)
     \<or> (\<exists>sp. (err = CheckpointIOError \<and> (\<not> progress_write_ok env sp \<or> \<not> results_write_ok env sp))
        \<or> (err = StoreQueryError \<and> \<not> graph_stats_ok env sp))"
proof -
  assume r: "snd (run writer env chunks clear_db resume max_chunks start_from s) = Some err"
  define s1 where "s1 = (if clear_db then s\<lparr>store := empty_graph, processed_chunks := {}\<rparr>
                else if resume then load_progress s else s)"
  define chunks3 where "chunks3 =
     (case max_chunks of
        None \<Rightarrow> (if start_from > 0
                  then slice_from start_from
                         (if resume \<and> processed_chunks s1 \<noteq> {}
                          then filter (\<lambda>c. chunk_id c \<notin> processed_chunks s1) chunks else chunks)
                  else (if resume \<and> processed_chunks s1 \<noteq> {}
                        then filter (\<lambda>c. chunk_id c \<notin> processed_chunks s1) chunks else chunks))
      | Some m \<Rightarrow> slice_to m
                 (if start_from > 0
                  then slice_from start_from
                         (if resume \<and> processed_chunks s1 \<noteq> {}
                          then filter (\<lambda>c. chunk_id c \<notin> processed_chunks s1) chunks else chunks)
                  else (if resume \<and> processed_chunks s1 \<noteq> {}
                        then filter (\<lambda>c. chunk_id c \<notin> processed_chunks s1) chunks else chunks)))"
  have run_eq: "run writer env chunks clear_db resume max_chunks start_from s =
      (if clear_db \<and> \<not> clear_database_ok env then (s, Some StoreClearError)
       else if \<not> load_chunks_ok env then (s1, Some ChunkLoadError)
       else if chunks = [] then (s1, None)
       else case process_chunks writer env 0 chunks3 (s1\<lparr>results := []\<rparr>) of
              (s2, Some err) \<Rightarrow> (s2, Some err)
            | (s2, None) \<Rightarrow> save_point_step env Final s2)"
    unfolding run_def s1_def chunks3_def by (simp add: Let_def)
  show ?thesis
  proof (cases "clear_db \<and> \<not> clear_database_ok env")
    case True
    with r run_eq show ?thesis by auto
  next
    case nc: False
    show ?thesis
    proof (cases "load_chunks_ok env")
      case False
      with r run_eq nc show ?thesis by auto
    next
      case ok: True
      from r run_eq nc ok have ne: "chunks \<noteq> []" by (auto split: if_splits)
      from run_eq nc ok ne have run_eq2:
        "run writer env chunks clear_db resume max_chunks start_from s =
           (case process_chunks writer env 0 chunks3 (s1\<lparr>results := []\<rparr>) of
              (s2, Some err) \<Rightarrow> (s2, Some err)
            | (s2, None) \<Rightarrow> save_point_step env Final s2)"
        by simp
      obtain s2 e where p: "process_chunks writer env 0 chunks3 (s1\<lparr>results := []\<rparr>) = (s2, e)"
        by (cases "process_chunks writer env 0 chunks3 (s1\<lparr>results := []\<rparr>)")
      show ?thesis
      proof (cases e)
        case (Some e')
        with r run_eq2 p have "e' = err" by simp
        with p Some have "snd (process_chunks writer env 0 chunks3 (s1\<lparr>results := []\<rparr>)) = Some err"
          by simp
        then have "\<exists>sp. (err = CheckpointIOError \<and> (\<not> progress_write_ok env sp \<or> \<not> results_write_ok env sp))
            \<or> (err = StoreQueryError \<and> \<not> graph_stats_ok env sp)"
          by (rule process_chunks_error_cause)
        then show ?thesis by blast
      next
        case None
        with r run_eq2 p have "snd (save_point_step env Final s2) = Some err" by simp
        then have "save_point_step env Final s2 = (fst (save_point_step env Final s2), Some err)"
          by (metis prod.collapse)
        then have "\<exists>sp. (err = CheckpointIOError \<and> (\<not> progress_write_ok env sp \<or> \<not> results_write_ok env sp))
            \<or> (err = StoreQueryError \<and> \<not> graph_stats_ok env sp)"
          using save_point_step_error_cause[of env Final s2 "fst (save_point_step env Final s2)" err]
          by blast
        then show ?thesis by blast
      qed
    qed
  qed
qed

text \<open>
  Claim C8 (extraction failure is not fatal; the run halts only on a checkpoint-file failure
  or at the end of the input) against the code at a concrete run: eleven pending chunks,
  every extraction failing, both checkpoint files writable throughout, and the statistics
  query of \<open>get_graph_stats\<close> failing after the tenth chunk. The ten failed extractions
  write nothing and are recorded as processed, as the claim says; but the run ends there
  with the error of the statistics query, the eleventh chunk never extracted, although no
  checkpoint write failed and input remains.
\<close>

theorem run_halts_on_statistics_failure:
  "snd (run writer ex_stats_failing_env ex_eleven_chunks False True None 0 ex_pipeline)
     = Some StoreQueryError
   \<and> extract_calls (fst (run writer ex_stats_failing_env ex_eleven_chunks False True None 0 ex_pipeline))
     = map chunk_id (take 10 ex_eleven_chunks)
   \<and> chunk_id (ex_chunk 11)
     \<notin> processed_chunks (fst (run writer ex_stats_failing_env ex_eleven_chunks False True None 0 ex_pipeline))
   \<and> progress (fst (run writer ex_stats_failing_env ex_eleven_chunks False True None 0 ex_pipeline))
     = Saved (chunk_id ` set (take 10 ex_eleven_chunks))
   \<and> store (fst (run writer ex_stats_failing_env ex_eleven_chunks False True None 0 ex_pipeline))
     = store ex_pipeline"
  by (simp add: run_def ex_stats_failing_env_def ex_eleven_chunks_def ex_pipeline_def
        load_progress_def Let_def save_point_step_def ex_chunk_def process_chunk_def, blast)

end
